theory Spec2Isabelle
  imports Complex_Main "HOL-Library.AList"
begin

section \<open>Values, exceptions and the outside world\<close>

text \<open>
  The values the client handles are what the HTTP library parses out of a JSON body
  (Python's None, bool, int, float, str, list and dict), and the text of a raw body,
  which is a Python str as well. A dict is an association list in insertion order.
\<close>

datatype json =
    JNull
  | JBool bool
  | JInt int
  | JFloat real
  | JStr string
  | JArr "json list"
  | JObj "(string \<times> json) list"

text \<open>
  The exceptions that travel through the client. \<open>ClientResponseError\<close> carries the
  HTTP status; in the HTTP library it is a subclass of \<open>ClientError\<close>.
\<close>

datatype exc =
    ClientResponseError int
  | ClientError string
  | AssertionError string
  | TypeError string
  | KeyError string
  | ValueError string
  | RuntimeError string
  | OtherException string

text \<open>The query parameters of a request: a \<open>dict[str, str]\<close>.\<close>

type_synonym params = "(string \<times> string) list"

text \<open>
  What one GET gives back: either opening the request raises, or a response arrives with
  a status, and its body can be read as text or as JSON (either read can raise, for
  instance on a body that is not JSON).
\<close>

record response =
  resp_status :: int
  resp_text :: "exc + string"
  resp_json :: "exc + json"

datatype reply = Get_raised exc | Replied response

text \<open>
  Everything the client does to the outside world is an event: one HTTP attempt (the
  command on whose behalf it is made, the component, the query parameters sent and what
  the attempt came to), or one backoff sleep (the command and the delay).
\<close>

datatype event =
    Attempt string string params "exc + json"
  | Sleep string real

fun owner :: "event \<Rightarrow> string" where
  "owner (Attempt cmd _ _ _) = cmd"
| "owner (Sleep cmd _) = cmd"

fun is_attempt :: "event \<Rightarrow> bool" where
  "is_attempt (Attempt _ _ _ _) = True"
| "is_attempt (Sleep _ _) = False"

fun outcomes :: "event list \<Rightarrow> (exc + json) list" where
  "outcomes [] = []"
| "outcomes (Attempt _ _ _ r # es) = r # outcomes es"
| "outcomes (Sleep _ _ # es) = outcomes es"

fun sleeps :: "event list \<Rightarrow> real list" where
  "sleeps [] = []"
| "sleeps (Attempt _ _ _ _ # es) = sleeps es"
| "sleeps (Sleep _ d # es) = d # sleeps es"

text \<open>
  The state threaded through the client: the history of events so far, and the store of
  parameter dictionaries (a dictionary is referred to by its index in the store, so that
  copying and in-place update are distinguished).
\<close>

record state =
  history :: "event list"
  heap :: "params list"

text \<open>
  The world is deterministic given the history: the clock (Unix time in whole seconds,
  \<open>int(time.time())\<close>) and the device's reply to a GET on a component with given query
  parameters.
\<close>

record world =
  unix_time :: "event list \<Rightarrow> int"
  appliance :: "event list \<Rightarrow> string \<Rightarrow> params \<Rightarrow> reply"

definition alloc :: "params \<Rightarrow> state \<Rightarrow> nat \<times> state" where
  "alloc d s = (length (heap s), s\<lparr>heap := heap s @ [d]\<rparr>)"

definition setitem :: "nat \<Rightarrow> string \<Rightarrow> string \<Rightarrow> state \<Rightarrow> state" where
  "setitem r k v s = s\<lparr>heap := (heap s)[r := AList.update k v (heap s ! r)]\<rparr>"

definition log_event :: "event \<Rightarrow> state \<Rightarrow> state" where
  "log_event e s = s\<lparr>history := history s @ [e]\<rparr>"

subsection \<open>Python's \<open>str\<close> of an integer\<close>

definition digit_char :: "nat \<Rightarrow> char" where
  "digit_char n = ''0123456789'' ! n"

function str_nat :: "nat \<Rightarrow> string" where
  "str_nat n = (if n < 10 then [digit_char n] else str_nat (n div 10) @ [digit_char (n mod 10)])"
  by pat_completeness auto
termination
  by (relation "measure id") auto

declare str_nat.simps [simp del]

definition str_int :: "int \<Rightarrow> string" where
  "str_int i = (if i < 0 then CHR ''-'' # str_nat (nat (- i)) else str_nat (nat i))"

section \<open>The command executor\<close>

text \<open>list of status codes that we don't count as false-positives\<close>

definition TRUSTED_STATUS_CODES :: "int set" where
  "TRUSTED_STATUS_CODES = {401, 404}"

text \<open>The expected type of a parsed body: \<open>dict\<close> or \<open>list\<close> (or none).\<close>

datatype pytype = T_dict | T_list

fun isinstance :: "json \<Rightarrow> pytype \<Rightarrow> bool" where
  "isinstance (JObj _) T_dict = True"
| "isinstance (JArr _) T_list = True"
| "isinstance _ _ = False"

text \<open>Python's \<open>len\<close>: defined on str, list and dict, a TypeError on the rest.\<close>

fun len :: "json \<Rightarrow> exc + nat" where
  "len (JStr s) = Inr (length s)"
| "len (JArr xs) = Inr (length xs)"
| "len (JObj kvs) = Inr (length kvs)"
| "len _ = Inl (TypeError ''object has no len()'')"

text \<open>
  The arguments of \<open>VZugApi._command\<close>; \<open>params\<close> is a reference into the store
  or None, \<open>value_on_err\<close> a producer of the default value or None.
\<close>

record command_args =
  component :: string
  command :: string
  params :: "nat option"
  raw :: bool
  expected_type :: "pytype option"
  reject_empty :: bool
  attempts :: nat
  retry_delay :: real
  value_on_err :: "(unit \<Rightarrow> json) option"

text \<open>The keyword defaults of \<open>_command\<close>.\<close>

definition default_args :: "string \<Rightarrow> string \<Rightarrow> command_args" where
  "default_args seg cmd =
     \<lparr>component = seg, command = cmd, params = None, raw = False, expected_type = None,
      reject_empty = False, attempts = 5, retry_delay = 1 / 2, value_on_err = None\<rparr>"

text \<open>
  The body of \<open>once\<close> after the GET has been issued: \<open>raise_for_status\<close> (the HTTP
  library raises for a status of 400 and above), then the raw text, or the JSON body with
  the null-as-empty-list rule, the type assertion and the emptiness assertion.
\<close>

definition raise_for_status :: "response \<Rightarrow> exc + unit" where
  "raise_for_status resp =
     (if resp_status resp \<ge> 400 then Inl (ClientResponseError (resp_status resp)) else Inr ())"

definition check_data :: "command_args \<Rightarrow> json \<Rightarrow> exc + json" where
  "check_data a data0 =
     (let data = (if expected_type a = Some T_list \<and> data0 = JNull then JArr [] else data0) in
      if (case expected_type a of None \<Rightarrow> False | Some t \<Rightarrow> \<not> isinstance data t)
      then Inl (AssertionError ''data type mismatch'')
      else if reject_empty a then
        (case len data of
           Inl e \<Rightarrow> Inl e
         | Inr n \<Rightarrow> if n > 0 then Inr data else Inl (AssertionError ''empty response rejected''))
      else Inr data)"

definition read_reply :: "command_args \<Rightarrow> reply \<Rightarrow> exc + json" where
  "read_reply a rep =
     (case rep of
        Get_raised e \<Rightarrow> Inl e
      | Replied resp \<Rightarrow>
          (case raise_for_status resp of
             Inl e \<Rightarrow> Inl e
           | Inr _ \<Rightarrow>
               if raw a then
                 (case resp_text resp of Inl e \<Rightarrow> Inl e | Inr content \<Rightarrow> Inr (JStr content))
               else
                 (case resp_json resp of Inl e \<Rightarrow> Inl e | Inr data \<Rightarrow> check_data a data)))"

text \<open>One attempt: the GET with the final parameters as they stand in the store.\<close>

definition once :: "world \<Rightarrow> command_args \<Rightarrow> nat \<Rightarrow> state \<Rightarrow> (exc + json) \<times> state" where
  "once w a final_params s =
     (let sent = heap s ! final_params;
          r = read_reply a (appliance w (history s) (component a) sent)
      in (r, log_event (Attempt (command a) (component a) sent r) s))"

text \<open>
  What the \<open>except\<close> clauses of the retry loop do with an exception: a response error
  with a trusted status breaks out of the loop, any other response error, a client error
  and an assertion error are retried, and anything else is not caught.
\<close>

datatype handling = Break | Retry | Propagate

fun on_error :: "exc \<Rightarrow> handling" where
  "on_error (ClientResponseError st) = (if st \<in> TRUSTED_STATUS_CODES then Break else Retry)"
| "on_error (ClientError _) = Retry"
| "on_error (AssertionError _) = Retry"
| "on_error _ = Propagate"

text \<open>
  The loop \<open>for _ in range(attempts)\<close>, by the attempts that remain. It ends by
  returning a value, by an exception that is not caught, or by falling through (budget
  spent, or break) with the last recorded exception.
\<close>

datatype loop_exit = Returned json | Raised exc | Fell_through exc

fun retry_loop ::
  "world \<Rightarrow> command_args \<Rightarrow> nat \<Rightarrow> nat \<Rightarrow> real \<Rightarrow> exc \<Rightarrow> state \<Rightarrow> loop_exit \<times> state" where
  "retry_loop w a fp 0 delay last_exc s = (Fell_through last_exc, s)"
| "retry_loop w a fp (Suc n) delay last_exc s =
     (case once w a fp s of
        (Inr v, s1) \<Rightarrow> (Returned v, s1)
      | (Inl e, s1) \<Rightarrow>
          (case on_error e of
             Break \<Rightarrow> (Fell_through e, s1)
           | Propagate \<Rightarrow> (Raised e, s1)
           | Retry \<Rightarrow>
               retry_loop w a fp n (delay * 2) e (log_event (Sleep (command a) delay) s1)))"

text \<open>
  The first lines of \<open>_command\<close>: an absent \<open>params\<close> becomes a fresh empty
  dictionary, \<open>final_params\<close> is a copy of it, and the command name and the
  cache-buster are stored into the copy.
\<close>

definition prepare_params :: "world \<Rightarrow> command_args \<Rightarrow> state \<Rightarrow> nat \<times> state" where
  "prepare_params w a s =
     (let (p, s0) = (case params a of None \<Rightarrow> alloc [] s | Some p \<Rightarrow> (p, s));
          (final_params, s1) = alloc (heap s0 ! p) s0;
          s2 = setitem final_params ''command'' (command a) s1;
          s3 = setitem final_params ''_'' (str_int (unix_time w (history s2))) s2
      in (final_params, s3))"

text \<open>
  \<open>VZugApi._command\<close>. The admission semaphore (three slots) is acquired around
  the loop and released on every way out; it does not change what a single call does.
\<close>

definition VZugApi_command :: "world \<Rightarrow> command_args \<Rightarrow> state \<Rightarrow> (exc + json) \<times> state" where
  "VZugApi_command w a s =
     (let (final_params, s3) = prepare_params w a s;
          (ex, s4) = retry_loop w a final_params (attempts a) (retry_delay a)
                       (ValueError ''no attempts made'') s3
      in case ex of
           Returned v \<Rightarrow> (Inr v, s4)
         | Raised e \<Rightarrow> (Inl e, s4)
         | Fell_through last_exc \<Rightarrow>
             (case value_on_err a of
                Some f \<Rightarrow> (Inr (f ()), s4)
              | None \<Rightarrow> (Inl last_exc, s4)))"

section \<open>Awaiting one call after another\<close>

text \<open>
  A call of the client is a function of the state that returns a value or raises.
  \<open>await m f\<close> runs \<open>m\<close> and hands its value to \<open>f\<close>; an exception of \<open>m\<close>
  ends the whole computation there.
\<close>

definition await ::
  "(state \<Rightarrow> (exc + 'a) \<times> state) \<Rightarrow> ('a \<Rightarrow> state \<Rightarrow> (exc + 'b) \<times> state) \<Rightarrow>
   state \<Rightarrow> (exc + 'b) \<times> state" where
  "await m f s = (case m s of (Inl e, s') \<Rightarrow> (Inl e, s') | (Inr v, s') \<Rightarrow> f v s')"

definition return :: "'a \<Rightarrow> state \<Rightarrow> (exc + 'a) \<times> state" where
  "return v s = (Inr v, s)"

text \<open>A call whose value is dropped (\<open>-> None\<close>).\<close>

definition discard :: "(state \<Rightarrow> (exc + json) \<times> state) \<Rightarrow> state \<Rightarrow> (exc + unit) \<times> state" where
  "discard m = await m (\<lambda>v. return ())"

text \<open>\<open>(lambda: v) if default_on_error else None\<close>\<close>

definition producer :: "bool \<Rightarrow> json \<Rightarrow> (unit \<Rightarrow> json) option" where
  "producer default_on_error v = (if default_on_error then Some (\<lambda>u. v) else None)"

text \<open>\<open>data[key]\<close> and \<open>data.get(key, default)\<close> on a parsed value.\<close>

fun getitem :: "json \<Rightarrow> string \<Rightarrow> exc + json" where
  "getitem (JObj kvs) k = (case map_of kvs k of None \<Rightarrow> Inl (KeyError k) | Some v \<Rightarrow> Inr v)"
| "getitem _ k = Inl (TypeError ''indices must be integers'')"

fun dict_get :: "json \<Rightarrow> string \<Rightarrow> json \<Rightarrow> exc + json" where
  "dict_get (JObj kvs) k d = (case map_of kvs k of None \<Rightarrow> Inr d | Some v \<Rightarrow> Inr v)"
| "dict_get _ k d = Inl (OtherException ''AttributeError'')"

section \<open>Program\<close>

text \<open>The keys of \<open>ProgramInfo\<close>, in one order of iteration.\<close>

definition ProgramInfo_keys :: "string list" where
  "ProgramInfo_keys = [''id'', ''name'', ''status'', ''stepIds'']"

record Program =
  info :: "(string \<times> json) list"
  options :: "(string \<times> json) list"

text \<open>
  The loop of \<open>Program.build\<close> over the keys: a key found in \<open>options\<close> is stored
  into \<open>info\<close> and deleted from \<open>options\<close>, a key not found (LookupError) is passed.
\<close>

fun extract_keys :: "string list \<Rightarrow> Program \<Rightarrow> Program" where
  "extract_keys [] p = p"
| "extract_keys (k # ks) p =
     (case map_of (options p) k of
        None \<Rightarrow> extract_keys ks p
      | Some v \<Rightarrow>
          extract_keys ks
            \<lparr>info = AList.update k v (info p), options = AList.delete k (options p)\<rparr>)"

text \<open>
  \<open>Program.build\<close>, by the order in which the key set is iterated (Python leaves the
  order of a frozenset open).
\<close>

definition build_in_order :: "string list \<Rightarrow> (string \<times> json) list \<Rightarrow> Program" where
  "build_in_order ks raw_dict = extract_keys ks \<lparr>info = [], options = raw_dict\<rparr>"

definition Program_build :: "(string \<times> json) list \<Rightarrow> Program" where
  "Program_build raw_dict = build_in_order ProgramInfo_keys raw_dict"

section \<open>Typed accessors\<close>

definition get_mac_address :: "world \<Rightarrow> bool \<Rightarrow> state \<Rightarrow> (exc + json) \<times> state" where
  "get_mac_address w default_on_error =
     VZugApi_command w
       ((default_args ''ai'' ''getMacAddress'')
          \<lparr>raw := True, value_on_err := producer default_on_error (JStr [])\<rparr>)"

definition get_model_description :: "world \<Rightarrow> bool \<Rightarrow> state \<Rightarrow> (exc + json) \<times> state" where
  "get_model_description w default_on_error =
     VZugApi_command w
       ((default_args ''ai'' ''getModelDescription'')
          \<lparr>raw := True, value_on_err := producer default_on_error (JStr [])\<rparr>)"

definition get_device_status :: "world \<Rightarrow> bool \<Rightarrow> state \<Rightarrow> (exc + json) \<times> state" where
  "get_device_status w default_on_error =
     VZugApi_command w
       ((default_args ''ai'' ''getDeviceStatus'')
          \<lparr>expected_type := Some T_dict, value_on_err := producer default_on_error (JObj [])\<rparr>)"

definition get_update_status :: "world \<Rightarrow> bool \<Rightarrow> state \<Rightarrow> (exc + json) \<times> state" where
  "get_update_status w default_on_error =
     VZugApi_command w
       ((default_args ''ai'' ''getUpdateStatus'')
          \<lparr>expected_type := Some T_dict, value_on_err := producer default_on_error (JObj [])\<rparr>)"

definition check_for_updates :: "world \<Rightarrow> state \<Rightarrow> (exc + unit) \<times> state" where
  "check_for_updates w =
     discard (VZugApi_command w ((default_args ''ai'' ''checkUpdate'')\<lparr>raw := True, attempts := 2\<rparr>))"

definition do_ai_update :: "world \<Rightarrow> state \<Rightarrow> (exc + unit) \<times> state" where
  "do_ai_update w = discard (VZugApi_command w (default_args ''ai'' ''doAIUpdate''))"

definition do_hhg_update :: "world \<Rightarrow> state \<Rightarrow> (exc + unit) \<times> state" where
  "do_hhg_update w = discard (VZugApi_command w (default_args ''ai'' ''doHHGUpdate''))"

definition get_last_push_notifications :: "world \<Rightarrow> bool \<Rightarrow> state \<Rightarrow> (exc + json) \<times> state" where
  "get_last_push_notifications w default_on_error =
     VZugApi_command w
       ((default_args ''ai'' ''getLastPUSHNotifications'')
          \<lparr>expected_type := Some T_list, value_on_err := producer default_on_error (JArr [])\<rparr>)"

definition list_categories :: "world \<Rightarrow> state \<Rightarrow> (exc + json) \<times> state" where
  "list_categories w =
     VZugApi_command w
       ((default_args ''hh'' ''getCategories'')
          \<lparr>expected_type := Some T_list, reject_empty := False\<rparr>)"

text \<open>
  The accessors with a \<open>value\<close> parameter build the dictionary \<open>{"value": value}\<close>
  and hand it to the executor.
\<close>

definition with_value ::
  "world \<Rightarrow> command_args \<Rightarrow> string \<Rightarrow> state \<Rightarrow> (exc + json) \<times> state" where
  "with_value w a v s =
     (let (p, s1) = alloc [(''value'', v)] s in VZugApi_command w (a\<lparr>params := Some p\<rparr>) s1)"

definition get_category :: "world \<Rightarrow> string \<Rightarrow> state \<Rightarrow> (exc + json) \<times> state" where
  "get_category w v =
     with_value w ((default_args ''hh'' ''getCategory'')\<lparr>expected_type := Some T_dict\<rparr>) v"

definition list_commands :: "world \<Rightarrow> string \<Rightarrow> state \<Rightarrow> (exc + json) \<times> state" where
  "list_commands w v =
     with_value w ((default_args ''hh'' ''getCommands'')\<lparr>expected_type := Some T_list\<rparr>) v"

definition get_command :: "world \<Rightarrow> string \<Rightarrow> state \<Rightarrow> (exc + json) \<times> state" where
  "get_command w v =
     with_value w ((default_args ''hh'' ''getCommand'')\<lparr>expected_type := Some T_dict\<rparr>) v"

definition set_command :: "world \<Rightarrow> string \<Rightarrow> string \<Rightarrow> state \<Rightarrow> (exc + unit) \<times> state" where
  "set_command w cmd v =
     discard (with_value w ((default_args ''hh'' (''set'' @ cmd))\<lparr>raw := True, attempts := 2\<rparr>) v)"

definition do_command_action :: "world \<Rightarrow> string \<Rightarrow> state \<Rightarrow> (exc + unit) \<times> state" where
  "do_command_action w cmd =
     discard (VZugApi_command w ((default_args ''hh'' (''do'' @ cmd))\<lparr>raw := True, attempts := 2\<rparr>))"

definition get_hh_fw_version :: "world \<Rightarrow> bool \<Rightarrow> state \<Rightarrow> (exc + json) \<times> state" where
  "get_hh_fw_version w default_on_error =
     VZugApi_command w
       ((default_args ''hh'' ''getFWVersion'')
          \<lparr>expected_type := Some T_dict, value_on_err := producer default_on_error (JObj [])\<rparr>)"

definition get_ai_fw_version :: "world \<Rightarrow> bool \<Rightarrow> state \<Rightarrow> (exc + json) \<times> state" where
  "get_ai_fw_version w default_on_error =
     VZugApi_command w
       ((default_args ''ai'' ''getFWVersion'')
          \<lparr>expected_type := Some T_dict, value_on_err := producer default_on_error (JObj [])\<rparr>)"

definition get_zh_mode :: "world \<Rightarrow> bool \<Rightarrow> state \<Rightarrow> (exc + json) \<times> state" where
  "get_zh_mode w default_on_error =
     await
       (VZugApi_command w
          ((default_args ''hh'' ''getZHMode'')
             \<lparr>expected_type := Some T_dict,
              value_on_err := producer default_on_error (JObj [(''value'', JInt (- 1))])\<rparr>))
       (\<lambda>data s. (getitem data ''value'', s))"

definition get_eco_info :: "world \<Rightarrow> bool \<Rightarrow> state \<Rightarrow> (exc + json) \<times> state" where
  "get_eco_info w default_on_error =
     VZugApi_command w
       ((default_args ''hh'' ''getEcoInfo'')
          \<lparr>expected_type := Some T_dict, value_on_err := producer default_on_error (JObj [])\<rparr>)"

definition get_device_info :: "world \<Rightarrow> state \<Rightarrow> (exc + json) \<times> state" where
  "get_device_info w =
     VZugApi_command w ((default_args ''hh'' ''getDeviceInfo'')\<lparr>expected_type := Some T_dict\<rparr>)"

text \<open>
  \<open>set_program\<close>: the options (None or empty gives a fresh dictionary) get the program
  id under \<open>"id"\<close> and are sent as \<open>json.dumps(options)\<close>; the serialiser is a
  parameter of the model.
\<close>

definition set_program ::
  "(json \<Rightarrow> string) \<Rightarrow> world \<Rightarrow> int \<Rightarrow> (string \<times> json) list option \<Rightarrow>
   state \<Rightarrow> (exc + json) \<times> state" where
  "set_program dumps w program_id opts =
     (let options0 = (case opts of None \<Rightarrow> [] | Some d \<Rightarrow> d);
          options1 = AList.update ''id'' (JInt program_id) options0
      in with_value w ((default_args ''hh'' ''setProgram'')\<lparr>raw := True, attempts := 2\<rparr>)
           (dumps (JObj options1)))"

definition get_all_program_ids :: "world \<Rightarrow> state \<Rightarrow> (exc + json) \<times> state" where
  "get_all_program_ids w =
     VZugApi_command w ((default_args ''hh'' ''getAllProgramIds'')\<lparr>expected_type := Some T_list\<rparr>)"

section \<open>Aggregates\<close>

record AggState =
  zh_mode :: json
  device :: json
  device_fetched_at :: int
  notifications :: json
  eco_info :: json

record AggUpdateStatus =
  update_status :: json
  ai_fw_version :: json
  hh_fw_version :: json

record AggMeta =
  mac_address :: json
  model_description :: json

record AggCategory =
  key :: string
  description :: json
  commands :: "(string \<times> json) list"

type_synonym AggConfig = "(string \<times> AggCategory) list"

text \<open>always start with zh_mode, that seems to do something??\<close>

definition aggregate_state :: "world \<Rightarrow> bool \<Rightarrow> state \<Rightarrow> (exc + AggState) \<times> state" where
  "aggregate_state w default_on_error =
     await (get_zh_mode w True) (\<lambda>zh.
     await (get_device_status w default_on_error) (\<lambda>dev s.
       (let fetched_at = unix_time w (history s) in
        await (get_last_push_notifications w default_on_error) (\<lambda>notes.
        await (get_eco_info w default_on_error) (\<lambda>eco.
        return \<lparr>zh_mode = zh, device = dev, device_fetched_at = fetched_at,
                notifications = notes, eco_info = eco\<rparr>))) s))"

definition aggregate_update_status ::
  "world \<Rightarrow> bool \<Rightarrow> state \<Rightarrow> (exc + AggUpdateStatus) \<times> state" where
  "aggregate_update_status w default_on_error =
     await (get_update_status w default_on_error) (\<lambda>upd.
     await (get_ai_fw_version w default_on_error) (\<lambda>ai.
     await (get_hh_fw_version w default_on_error) (\<lambda>hh.
     return \<lparr>update_status = upd, ai_fw_version = ai, hh_fw_version = hh\<rparr>)))"

definition aggregate_meta :: "world \<Rightarrow> bool \<Rightarrow> state \<Rightarrow> (exc + AggMeta) \<times> state" where
  "aggregate_meta w default_on_error =
     await (get_mac_address w default_on_error) (\<lambda>mac.
     await (get_model_description w default_on_error) (\<lambda>model.
     return \<lparr>mac_address = mac, model_description = model\<rparr>))"

subsection \<open>The configuration tree\<close>

text \<open>
  \<open>asyncio.gather(c1, ..., cn)\<close> wraps its coroutines into tasks, which run only once
  the caller suspends, and returns a future at once: not done when there is a coroutine,
  done (with the empty list) when there is none.
\<close>

datatype future = Pending | Done "json list"

definition asyncio_gather :: "(state \<Rightarrow> (exc + json) \<times> state) list \<Rightarrow> future" where
  "asyncio_gather coros = (if coros = [] then Done [] else Pending)"

text \<open>
  A future assigned to two targets without \<open>await\<close> is iterated: a future that is not
  done yields itself and then raises RuntimeError; a done future yields nothing, and the
  assignment raises ValueError.
\<close>

fun unpack2 :: "future \<Rightarrow> exc + json \<times> json" where
  "unpack2 Pending = Inl (RuntimeError ''await wasn't used with future'')"
| "unpack2 (Done r) = Inl (ValueError ''not enough values to unpack (expected 2, got 0)'')"

text \<open>A category or command key is a string.\<close>

fun as_str :: "json \<Rightarrow> exc + string" where
  "as_str (JStr k) = Inr k"
| "as_str _ = Inl (TypeError ''key is not a string'')"

fun items :: "json \<Rightarrow> json list" where
  "items (JArr xs) = xs"
| "items _ = []"

text \<open>
  \<open>await asyncio.gather(*(handle_command_key(k) for k in command_keys))\<close>, the
  commands fetched in the order of the keys.
\<close>

fun handle_command_keys ::
  "world \<Rightarrow> json list \<Rightarrow> (string \<times> json) list \<Rightarrow> state \<Rightarrow>
   (exc + (string \<times> json) list) \<times> state" where
  "handle_command_keys w [] cmds s = (Inr cmds, s)"
| "handle_command_keys w (k # ks) cmds s =
     (case as_str k of
        Inl e \<Rightarrow> (Inl e, s)
      | Inr command_key \<Rightarrow>
          (case get_command w command_key s of
             (Inl e, s1) \<Rightarrow> (Inl e, s1)
           | (Inr command_raw, s1) \<Rightarrow>
               handle_command_keys w ks (AList.update command_key command_raw cmds) s1))"

text \<open>A call that takes a key, on a value that has to be a string first.\<close>

definition with_key ::
  "json \<Rightarrow> (string \<Rightarrow> state \<Rightarrow> (exc + json) \<times> state) \<Rightarrow> state \<Rightarrow> (exc + json) \<times> state" where
  "with_key k f s = (case as_str k of Inl e \<Rightarrow> (Inl e, s) | Inr v \<Rightarrow> f v s)"

text \<open>
  The loop of \<open>aggregate_config\<close> over the category keys. The two coroutines of a
  category are handed to \<open>asyncio.gather\<close>, and its future is assigned to
  \<open>category_raw, command_keys\<close> as it is.
\<close>

fun config_loop ::
  "world \<Rightarrow> json list \<Rightarrow> AggConfig \<Rightarrow> state \<Rightarrow> (exc + AggConfig) \<times> state" where
  "config_loop w [] config_tree s = (Inr config_tree, s)"
| "config_loop w (k # ks) config_tree s =
     (case unpack2 (asyncio_gather [with_key k (get_category w), with_key k (list_commands w)]) of
        Inl e \<Rightarrow> (Inl e, s)
      | Inr (category_raw, command_keys) \<Rightarrow>
          (case as_str k of
             Inl e \<Rightarrow> (Inl e, s)
           | Inr category_key \<Rightarrow>
               (case dict_get category_raw ''description'' (JStr []) of
                  Inl e \<Rightarrow> (Inl e, s)
                | Inr descr \<Rightarrow>
                    (case handle_command_keys w (items command_keys) [] s of
                       (Inl e, s1) \<Rightarrow> (Inl e, s1)
                     | (Inr cmds, s1) \<Rightarrow>
                         config_loop w ks
                           (AList.update category_key
                              \<lparr>key = category_key, description = descr, commands = cmds\<rparr>
                              config_tree) s1))))"

definition aggregate_config :: "world \<Rightarrow> state \<Rightarrow> (exc + AggConfig) \<times> state" where
  "aggregate_config w =
     await (list_categories w) (\<lambda>category_keys. config_loop w (items category_keys) [])"

section \<open>Observing a call\<close>

definition new_events :: "state \<Rightarrow> state \<Rightarrow> event list" where
  "new_events s s' = drop (length (history s)) (history s')"

text \<open>
  An attempt \<open>failed\<close> when it raised; the failure was \<open>caught\<close> when one of the
  \<open>except\<close> clauses of the loop handles it, and \<open>retried\<close> when the loop goes on to
  sleep after it.
\<close>

definition failed :: "exc + json \<Rightarrow> bool" where
  "failed r = (case r of Inl e \<Rightarrow> True | Inr v \<Rightarrow> False)"

definition caught :: "exc + json \<Rightarrow> bool" where
  "caught r = (case r of Inl e \<Rightarrow> on_error e \<noteq> Propagate | Inr v \<Rightarrow> False)"

definition retried :: "exc + json \<Rightarrow> bool" where
  "retried r = (case r of Inl e \<Rightarrow> on_error e = Retry | Inr v \<Rightarrow> False)"

text \<open>The exception of the last attempt, or the initial one when no attempt was made.\<close>

definition last_failure :: "(exc + json) list \<Rightarrow> exc" where
  "last_failure rs =
     (if rs = [] then ValueError ''no attempts made''
      else (case last rs of Inl e \<Rightarrow> e | Inr v \<Rightarrow> ValueError ''no attempts made''))"

text \<open>The dictionary every attempt of a call sends.\<close>

definition sent_params :: "world \<Rightarrow> command_args \<Rightarrow> state \<Rightarrow> params" where
  "sent_params w a s =
     AList.update ''_'' (str_int (unix_time w (history s)))
       (AList.update ''command'' (command a)
          (case params a of None \<Rightarrow> [] | Some p \<Rightarrow> heap s ! p))"

text \<open>The events of a run of the loop, from the outcomes of its attempts.\<close>

fun trace_of :: "string \<Rightarrow> string \<Rightarrow> params \<Rightarrow> real \<Rightarrow> (exc + json) list \<Rightarrow> event list" where
  "trace_of c sg ps d [] = []"
| "trace_of c sg ps d (r # rs) =
     Attempt c sg ps r #
       (if retried r then Sleep c d # trace_of c sg ps (d * 2) rs else trace_of c sg ps d rs)"

fun loop_events_ok :: "loop_exit \<Rightarrow> exc \<Rightarrow> (exc + json) list \<Rightarrow> bool" where
  "loop_events_ok (Returned v) e0 rs =
     (rs \<noteq> [] \<and> last rs = Inr v \<and> list_all retried (butlast rs))"
| "loop_events_ok (Raised e) e0 rs =
     (rs \<noteq> [] \<and> last rs = Inl e \<and> on_error e = Propagate \<and> list_all retried (butlast rs))"
| "loop_events_ok (Fell_through e) e0 rs =
     (list_all caught rs \<and> list_all retried (butlast rs) \<and>
      e = (if rs = [] then e0 else (case last rs of Inl x \<Rightarrow> x | Inr v \<Rightarrow> e0)))"

text \<open>The last lines of \<open>_command\<close>, by the way the loop ended.\<close>

definition command_result :: "command_args \<Rightarrow> loop_exit \<Rightarrow> exc + json" where
  "command_result a ex =
     (case ex of
        Returned v \<Rightarrow> Inr v
      | Raised e \<Rightarrow> Inl e
      | Fell_through l \<Rightarrow> (case value_on_err a of Some f \<Rightarrow> Inr (f ()) | None \<Rightarrow> Inl l))"

text \<open>A device that gives the same reply to every request, at a fixed time.\<close>

definition constant_world :: "reply \<Rightarrow> world" where
  "constant_world rep = \<lparr>unix_time = (\<lambda>h. 1700000000), appliance = (\<lambda>h sg ps. rep)\<rparr>"

definition status_reply :: "int \<Rightarrow> reply" where
  "status_reply st = Replied \<lparr>resp_status = st, resp_text = Inr [], resp_json = Inr JNull\<rparr>"

definition json_reply :: "json \<Rightarrow> reply" where
  "json_reply j = Replied \<lparr>resp_status = 200, resp_text = Inr [], resp_json = Inr j\<rparr>"

definition empty_state :: state where
  "empty_state = \<lparr>history = [], heap = []\<rparr>"

text \<open>A call that rejects empty data, declares no type and has a default.\<close>

definition unsized_args :: command_args where
  "unsized_args =
     (default_args ''hh'' ''getCommands'')
        \<lparr>reject_empty := True, value_on_err := Some (\<lambda>u. JArr [])\<rparr>"

text \<open>A call that expects a list and rejects an empty one.\<close>

definition nonempty_list_args :: command_args where
  "nonempty_list_args =
     (default_args ''hh'' ''getCategories'')\<lparr>expected_type := Some T_list, reject_empty := True\<rparr>"

text \<open>A store with one dictionary of the caller, and a call that is handed it.\<close>

definition caller_state :: state where
  "caller_state = \<lparr>history = [], heap = [[(''value'', ''c1'')]]\<rparr>"

definition caller_args :: command_args where
  "caller_args = (default_args ''hh'' ''getCategory'')\<lparr>params := Some 0\<rparr>"

text \<open>The key set of a dictionary.\<close>

definition keys :: "(string \<times> 'v) list \<Rightarrow> string set" where
  "keys d = fst ` set d"

text \<open>The first program of the comment in \<open>get_program\<close>, shortened.\<close>

definition alltag_kurz :: "(string \<times> json) list" where
  "alltag_kurz =
     [(''id'', JInt 52), (''name'', JStr ''Alltag Kurz''), (''status'', JStr ''selected''),
      (''duration'', JObj [(''set'', JInt 2460)]),
      (''optiStart'', JObj [(''set'', JBool False)])]"

text \<open>
  A device with the categories c1 and c2, where c1 has the one command x and c2 has
  none; anything else it does not know.
\<close>

definition two_categories :: "event list \<Rightarrow> string \<Rightarrow> params \<Rightarrow> reply" where
  "two_categories h sg ps =
     (if map_of ps ''command'' = Some ''getCategories''
        then json_reply (JArr [JStr ''c1'', JStr ''c2''])
      else if map_of ps ''command'' = Some ''getCategory''
        then json_reply (JObj [(''description'', JStr ''a category'')])
      else if map_of ps ''command'' = Some ''getCommands''
        then (if map_of ps ''value'' = Some ''c1'' then json_reply (JArr [JStr ''x''])
              else json_reply (JArr []))
      else if map_of ps ''command'' = Some ''getCommand''
        then json_reply (JObj [(''type'', JStr ''boolean''), (''command'', JStr ''x'')])
      else status_reply 404)"

definition two_categories_world :: world where
  "two_categories_world = \<lparr>unix_time = (\<lambda>h. 1700000000), appliance = two_categories\<rparr>"

text \<open>A call whose events, from any state, all belong to commands of a given set.\<close>

definition emits_only :: "string set \<Rightarrow> (state \<Rightarrow> 'a \<times> state) \<Rightarrow> bool" where
  "emits_only C m =
     (\<forall>s. \<exists>evs. history (snd (m s)) = history s @ evs \<and> owner ` set evs \<subseteq> C)"

text \<open>What \<open>aggregate_state\<close> does once the ZH mode has been fetched.\<close>

definition after_zh_mode ::
  "world \<Rightarrow> bool \<Rightarrow> json \<Rightarrow> state \<Rightarrow> (exc + AggState) \<times> state" where
  "after_zh_mode w default_on_error zh =
     await (get_device_status w default_on_error) (\<lambda>dev s.
       (let fetched_at = unix_time w (history s) in
        await (get_last_push_notifications w default_on_error) (\<lambda>notes.
        await (get_eco_info w default_on_error) (\<lambda>eco.
        return \<lparr>zh_mode = zh, device = dev, device_fetched_at = fetched_at,
                notifications = notes, eco_info = eco\<rparr>))) s)"

text \<open>A reply with status 200 whose body is not JSON: reading it as JSON raises.\<close>

definition not_json_reply :: reply where
  "not_json_reply =
     Replied \<lparr>resp_status = 200, resp_text = Inr ''<html>'',
              resp_json = Inl (ValueError ''JSONDecodeError'')\<rparr>"

text \<open>
  What a write with budget \<open>n\<close> comes to, from the state it started in: it made at
  most \<open>n\<close> requests, exactly \<open>n\<close> when every request failed with a failure that is
  retried, and when every request failed it raised the failure of the last one.
\<close>

definition write_outcome :: "nat \<Rightarrow> state \<Rightarrow> (exc + 'a) \<times> state \<Rightarrow> bool" where
  "write_outcome n s res =
     (length (filter is_attempt (new_events s (snd res))) \<le> n \<and>
      (list_all retried (outcomes (new_events s (snd res)))
         \<longrightarrow> length (filter is_attempt (new_events s (snd res))) = n) \<and>
      (list_all failed (outcomes (new_events s (snd res)))
         \<longrightarrow> fst res = Inl (last_failure (outcomes (new_events s (snd res))))))"

text \<open>A serialiser that stands for \<open>json.dumps\<close> in an example.\<close>

definition fixed_dumps :: "json \<Rightarrow> string" where
  "fixed_dumps j = ''{}''"

section \<open>Properties\<close>

lemma log_event_simps [simp]:
  "history (log_event e s) = history s @ [e]" "heap (log_event e s) = heap s"
  by (simp_all add: log_event_def)

lemma new_events_append [simp]: "history s' = history s @ evs \<Longrightarrow> new_events s s' = evs"
  by (simp add: new_events_def)

lemma once_eval:
  "once w a fp s =
     (read_reply a (appliance w (history s) (component a) (heap s ! fp)),
      log_event (Attempt (command a) (component a) (heap s ! fp)
                  (read_reply a (appliance w (history s) (component a) (heap s ! fp)))) s)"
  by (simp add: once_def Let_def)

lemma once_state:
  "once w a fp s = (r, s') \<Longrightarrow> s' = log_event (Attempt (command a) (component a) (heap s ! fp) r) s"
  by (auto simp: once_def Let_def)

lemma caught_last: "list_all caught rs \<Longrightarrow> rs \<noteq> [] \<Longrightarrow> \<exists>e. last rs = Inl e"
  by (induction rs) (auto simp: caught_def split: sum.splits if_splits)

lemma outcomes_trace_of [simp]: "outcomes (trace_of c sg ps d rs) = rs"
  by (induction rs arbitrary: d) simp_all

lemma attempts_trace_of [simp]: "length (filter is_attempt (trace_of c sg ps d rs)) = length rs"
  by (induction rs arbitrary: d) simp_all

lemma owner_trace_of: "e \<in> set (trace_of c sg ps d rs) \<Longrightarrow> owner e = c"
  by (induction rs arbitrary: d) (auto split: if_splits)

lemma loop_events_ok_butlast: "loop_events_ok ex e0 rs \<Longrightarrow> list_all retried (butlast rs)"
  by (cases ex) simp_all

lemma retry_loop_trace:
  "retry_loop w a fp n d e0 s = (ex, s') \<Longrightarrow>
     heap s' = heap s \<and>
     (\<exists>rs. history s' = history s @ trace_of (command a) (component a) (heap s ! fp) d rs \<and>
        length rs \<le> n \<and> loop_events_ok ex e0 rs \<and>
        (0 < n \<longrightarrow> rs \<noteq> [] \<and> hd rs = fst (once w a fp s)))"
proof (induction n arbitrary: d e0 s)
  case 0
  then show ?case by (auto intro!: exI[of _ "[]"])
next
  case (Suc n)
  obtain r s1 where o: "once w a fp s = (r, s1)" by (cases "once w a fp s")
  note eff = once_state[OF o]
  show ?case
  proof (cases r)
    case (Inr v)
    with Suc.prems o have "ex = Returned v" "s' = s1" by simp_all
    with eff Inr o show ?thesis
      by (auto intro!: exI[of _ "[r]"] simp: retried_def)
  next
    case (Inl e)
    show ?thesis
    proof (cases "on_error e")
      case Break
      with Suc.prems o Inl have "ex = Fell_through e" "s' = s1" by simp_all
      with eff Inl Break o show ?thesis
        by (auto intro!: exI[of _ "[r]"] simp: caught_def retried_def)
    next
      case Propagate
      with Suc.prems o Inl have "ex = Raised e" "s' = s1" by simp_all
      with eff Inl Propagate o show ?thesis
        by (auto intro!: exI[of _ "[r]"] simp: retried_def)
    next
      case Retry
      let ?s2 = "log_event (Sleep (command a) d) s1"
      from Suc.prems o Inl Retry
      have rec: "retry_loop w a fp n (d * 2) e ?s2 = (ex, s')" by simp
      from Suc.IH[OF rec] obtain rs where
        h: "heap s' = heap ?s2" and
        e1: "history s' = history ?s2 @ trace_of (command a) (component a) (heap ?s2 ! fp) (d * 2) rs" and
        e3: "length rs \<le> n" and
        e4: "loop_events_ok ex e rs"
        by blast
      have ret: "retried r" using Inl Retry by (simp add: retried_def)
      have "history s' = history s @ trace_of (command a) (component a) (heap s ! fp) d (r # rs)"
        using e1 eff ret by simp
      moreover have "length (r # rs) \<le> Suc n" using e3 by simp
      moreover have "loop_events_ok ex e0 (r # rs)"
        using e4 Inl Retry ret
        by (cases ex) (auto simp: caught_def dest: caught_last split: if_splits)
      moreover have "hd (r # rs) = fst (once w a fp s)" using o by simp
      moreover have "heap s' = heap s" using h eff by simp
      ultimately show ?thesis by blast
    qed
  qed
qed

lemma prepare_eval:
  "prepare_params w a s =
     (length (heap s) + (case params a of None \<Rightarrow> 1 | Some p \<Rightarrow> 0),
      s\<lparr>heap := heap s @ (case params a of None \<Rightarrow> [[]] | Some p \<Rightarrow> []) @ [sent_params w a s]\<rparr>)"
  by (cases "params a")
     (simp_all add: prepare_params_def alloc_def setitem_def sent_params_def Let_def nth_append)

lemma prepared_final:
  "(heap s @ (case params a of None \<Rightarrow> [[]] | Some p \<Rightarrow> []) @ [x]) !
     (length (heap s) + (case params a of None \<Rightarrow> 1 | Some p \<Rightarrow> 0)) = x"
  by (cases "params a") (simp_all add: nth_append)

lemma command_split:
  assumes "VZugApi_command w a s = (r, s')"
    and "prepare_params w a s = (fp, s3)"
    and "retry_loop w a fp (attempts a) (retry_delay a) (ValueError ''no attempts made'') s3 = (ex, s4)"
  shows "s' = s4 \<and> r = command_result a ex"
  using assms unfolding VZugApi_command_def command_result_def
  by (cases ex; cases "value_on_err a"; simp)

lemma command_trace:
  assumes run: "VZugApi_command w a s = (r, s')"
  shows command_events:
      "history s' = history s @ trace_of (command a) (component a) (sent_params w a s)
                                  (retry_delay a) (outcomes (new_events s s'))"
    and command_heap:
      "heap s' = heap s @ (case params a of None \<Rightarrow> [[]] | Some p \<Rightarrow> []) @ [sent_params w a s]"
    and command_budget: "length (outcomes (new_events s s')) \<le> attempts a"
    and command_exit:
      "\<exists>ex. loop_events_ok ex (ValueError ''no attempts made'') (outcomes (new_events s s')) \<and>
            r = command_result a ex"
    and command_first:
      "0 < attempts a \<Longrightarrow> outcomes (new_events s s') \<noteq> [] \<and>
         hd (outcomes (new_events s s')) =
           read_reply a (appliance w (history s) (component a) (sent_params w a s))"
proof -
  let ?fp = "length (heap s) + (case params a of None \<Rightarrow> 1 | Some p \<Rightarrow> 0)"
  let ?s3 = "s\<lparr>heap := heap s @ (case params a of None \<Rightarrow> [[]] | Some p \<Rightarrow> []) @ [sent_params w a s]\<rparr>"
  have p: "prepare_params w a s = (?fp, ?s3)" by (rule prepare_eval)
  have fin: "heap ?s3 ! ?fp = sent_params w a s"
    by (cases "params a") (simp_all add: nth_append)
  obtain ex s4 where l: "retry_loop w a ?fp (attempts a) (retry_delay a) (ValueError ''no attempts made'') ?s3 = (ex, s4)"
    by (cases "retry_loop w a ?fp (attempts a) (retry_delay a) (ValueError ''no attempts made'') ?s3")
  from command_split[OF run p l] have s': "s' = s4" and r: "r = command_result a ex" by simp_all
  from retry_loop_trace[OF l] have h: "heap s4 = heap ?s3" by (rule conjunct1)
  from retry_loop_trace[OF l] obtain rs where
    t: "history s4 = history ?s3 @ trace_of (command a) (component a) (heap ?s3 ! ?fp) (retry_delay a) rs" and
    n: "length rs \<le> attempts a" and
    ok: "loop_events_ok ex (ValueError ''no attempts made'') rs" and
    f: "0 < attempts a \<longrightarrow> rs \<noteq> [] \<and> hd rs = fst (once w a ?fp ?s3)"
    by (elim conjE exE)
  have t': "history s' = history s @ trace_of (command a) (component a) (sent_params w a s) (retry_delay a) rs"
    using t unfolding s' fin by simp
  then have ne: "outcomes (new_events s s') = rs" by simp
  have o: "fst (once w a ?fp ?s3) = read_reply a (appliance w (history s) (component a) (sent_params w a s))"
    unfolding once_eval fin by simp
  show "history s' = history s @ trace_of (command a) (component a) (sent_params w a s)
                                  (retry_delay a) (outcomes (new_events s s'))"
    unfolding ne by (rule t')
  show "heap s' = heap s @ (case params a of None \<Rightarrow> [[]] | Some p \<Rightarrow> []) @ [sent_params w a s]"
    using h unfolding s' by simp
  show "length (outcomes (new_events s s')) \<le> attempts a" unfolding ne by (rule n)
  show "\<exists>ex. loop_events_ok ex (ValueError ''no attempts made'') (outcomes (new_events s s')) \<and>
            r = command_result a ex"
    unfolding ne using ok r by blast
  show "outcomes (new_events s s') \<noteq> [] \<and>
         hd (outcomes (new_events s s')) =
           read_reply a (appliance w (history s) (component a) (sent_params w a s))"
    if "0 < attempts a"
    using f that unfolding ne o by simp
qed

lemma trace_of_shape:
  "list_all retried (butlast rs) \<Longrightarrow> i < length (trace_of c sg ps d rs) \<Longrightarrow>
     (if even i then is_attempt (trace_of c sg ps d rs ! i)
      else trace_of c sg ps d rs ! i = Sleep c (d * 2 ^ (i div 2)))"
proof (induction rs arbitrary: d i)
  case Nil
  then show ?case by simp
next
  case (Cons r rs)
  show ?case
  proof (cases "rs = []")
    case True
    with Cons.prems show ?thesis by (cases i) (auto split: if_splits)
  next
    case False
    with Cons.prems have ret: "retried r" and rest: "list_all retried (butlast rs)" by simp_all
    show ?thesis
    proof (cases i)
      case 0
      then show ?thesis by simp
    next
      case (Suc j)
      show ?thesis
      proof (cases j)
        case 0
        with Suc ret show ?thesis by simp
      next
        case (Suc k)
        with \<open>i = Suc j\<close> Cons.prems ret have "k < length (trace_of c sg ps (d * 2) rs)" by simp
        from Cons.IH[OF rest this] Suc \<open>i = Suc j\<close> ret show ?thesis by simp
      qed
    qed
  qed
qed

lemma break_first:
  assumes "loop_events_ok ex e0 rs" "rs \<noteq> []" "hd rs = Inl e" "on_error e = Break"
  shows "rs = [Inl e] \<and> ex = Fell_through e"
proof -
  from assms(2,3) obtain xs where rs: "rs = Inl e # xs" by (cases rs) auto
  have nr: "\<not> retried (Inl e)" using assms(4) by (simp add: retried_def)
  have "list_all retried (butlast rs)" using assms(1) by (rule loop_events_ok_butlast)
  with rs nr have xs: "xs = []" by (cases xs) auto
  with rs assms(1,4) show ?thesis by (cases ex) auto
qed

lemma success_first:
  assumes "loop_events_ok ex e0 rs" "rs \<noteq> []" "hd rs = Inr v"
  shows "rs = [Inr v] \<and> ex = Returned v"
proof -
  from assms(2,3) obtain xs where rs: "rs = Inr v # xs" by (cases rs) auto
  have nr: "\<not> retried (Inr v)" by (simp add: retried_def)
  have "list_all retried (butlast rs)" using assms(1) by (rule loop_events_ok_butlast)
  with rs nr have xs: "xs = []" by (cases xs) auto
  with rs assms(1) show ?thesis by (cases ex) (auto simp: caught_def)
qed

lemma empty_state_simps [simp]: "history empty_state = []" "heap empty_state = []"
  by (simp_all add: empty_state_def)

lemma retry_loop_numeral:
  "retry_loop w a fp (numeral k) delay last_exc s =
     (case once w a fp s of
        (Inr v, s1) \<Rightarrow> (Returned v, s1)
      | (Inl e, s1) \<Rightarrow>
          (case on_error e of
             Break \<Rightarrow> (Fell_through e, s1)
           | Propagate \<Rightarrow> (Raised e, s1)
           | Retry \<Rightarrow>
               retry_loop w a fp (pred_numeral k) (delay * 2) e (log_event (Sleep (command a) delay) s1)))"
  by (simp add: numeral_eq_Suc)

lemmas run_simps = VZugApi_command_def prepare_eval sent_params_def once_eval
  read_reply_def raise_for_status_def check_data_def log_event_def default_args_def
  constant_world_def status_reply_def json_reply_def empty_state_def producer_def
  TRUSTED_STATUS_CODES_def retry_loop_numeral new_events_def

lemma run_500:
  "VZugApi_command (constant_world (status_reply 500)) (default_args ''ai'' ''getDeviceStatus'')
     empty_state =
   (Inl (ClientResponseError 500),
    \<lparr>history =
       [Attempt ''getDeviceStatus'' ''ai''
          [(''command'', ''getDeviceStatus''), (''_'', str_int 1700000000)]
          (Inl (ClientResponseError 500)),
        Sleep ''getDeviceStatus'' (1 / 2),
        Attempt ''getDeviceStatus'' ''ai''
          [(''command'', ''getDeviceStatus''), (''_'', str_int 1700000000)]
          (Inl (ClientResponseError 500)),
        Sleep ''getDeviceStatus'' 1,
        Attempt ''getDeviceStatus'' ''ai''
          [(''command'', ''getDeviceStatus''), (''_'', str_int 1700000000)]
          (Inl (ClientResponseError 500)),
        Sleep ''getDeviceStatus'' 2,
        Attempt ''getDeviceStatus'' ''ai''
          [(''command'', ''getDeviceStatus''), (''_'', str_int 1700000000)]
          (Inl (ClientResponseError 500)),
        Sleep ''getDeviceStatus'' 4,
        Attempt ''getDeviceStatus'' ''ai''
          [(''command'', ''getDeviceStatus''), (''_'', str_int 1700000000)]
          (Inl (ClientResponseError 500)),
        Sleep ''getDeviceStatus'' 8],
     heap = [[], [(''command'', ''getDeviceStatus''), (''_'', str_int 1700000000)]]\<rparr>)"
  by (simp add: run_simps)

lemma run_500_default:
  "VZugApi_command (constant_world (status_reply 500))
     ((default_args ''ai'' ''getDeviceStatus'')\<lparr>value_on_err := Some (\<lambda>u. JObj [])\<rparr>)
     empty_state =
   (Inr (JObj []),
    snd (VZugApi_command (constant_world (status_reply 500))
           (default_args ''ai'' ''getDeviceStatus'') empty_state))"
  by (simp add: run_simps)

lemma run_unsized:
  "VZugApi_command (constant_world (json_reply (JInt 5))) unsized_args empty_state =
   (Inl (TypeError ''object has no len()''),
    \<lparr>history =
       [Attempt ''getCommands'' ''hh''
          [(''command'', ''getCommands''), (''_'', str_int 1700000000)]
          (Inl (TypeError ''object has no len()''))],
     heap = [[], [(''command'', ''getCommands''), (''_'', str_int 1700000000)]]\<rparr>)"
  by (simp add: run_simps unsized_args_def)

lemma run_null:
  "fst (VZugApi_command (constant_world (json_reply JNull)) nonempty_list_args empty_state) =
     Inl (AssertionError ''empty response rejected'')"
  by (simp add: run_simps nonempty_list_args_def)

lemma run_mac:
  "get_mac_address (constant_world (status_reply 404)) True empty_state =
   (Inr (JStr []),
    \<lparr>history =
       [Attempt ''getMacAddress'' ''ai''
          [(''command'', ''getMacAddress''), (''_'', str_int 1700000000)]
          (Inl (ClientResponseError 404))],
     heap = [[], [(''command'', ''getMacAddress''), (''_'', str_int 1700000000)]]\<rparr>)"
  by (simp add: run_simps get_mac_address_def)

lemma command_break_first:
  assumes run: "VZugApi_command w a s = (r, s')"
    and first: "outcomes (new_events s s') \<noteq> []" "hd (outcomes (new_events s s')) = Inl e"
    and br: "on_error e = Break"
  shows "new_events s s' = [Attempt (command a) (component a) (sent_params w a s) (Inl e)] \<and>
         r = (case value_on_err a of Some f \<Rightarrow> Inr (f ()) | None \<Rightarrow> Inl e)"
proof -
  let ?rs = "outcomes (new_events s s')"
  from command_exit[OF run] obtain ex where
    ok: "loop_events_ok ex (ValueError ''no attempts made'') ?rs" and r: "r = command_result a ex"
    by blast
  from break_first[OF ok first br] have rs: "?rs = [Inl e]" and ex: "ex = Fell_through e"
    by simp_all
  have nr: "\<not> retried (Inl e)" using br by (simp add: retried_def)
  from command_events[OF run] have "new_events s s' =
      trace_of (command a) (component a) (sent_params w a s) (retry_delay a) ?rs"
    by (rule new_events_append)
  with rs nr have "new_events s s' = [Attempt (command a) (component a) (sent_params w a s) (Inl e)]"
    by simp
  with r ex show ?thesis by (simp add: command_result_def)
qed

lemma command_success_first:
  assumes run: "VZugApi_command w a s = (r, s')" and pos: "0 < attempts a"
    and ok1: "read_reply a (appliance w (history s) (component a) (sent_params w a s)) = Inr v"
  shows "r = Inr v \<and>
         new_events s s' = [Attempt (command a) (component a) (sent_params w a s) (Inr v)]"
proof -
  let ?rs = "outcomes (new_events s s')"
  from command_exit[OF run] obtain ex where
    ok: "loop_events_ok ex (ValueError ''no attempts made'') ?rs" and r: "r = command_result a ex"
    by blast
  from command_first[OF run pos] ok1 have first: "?rs \<noteq> []" "hd ?rs = Inr v" by simp_all
  from success_first[OF ok first] have rs: "?rs = [Inr v]" and ex: "ex = Returned v" by simp_all
  have nr: "\<not> retried (Inr v)" by (simp add: retried_def)
  from command_events[OF run] have "new_events s s' =
      trace_of (command a) (component a) (sent_params w a s) (retry_delay a) ?rs"
    by (rule new_events_append)
  with rs nr have "new_events s s' = [Attempt (command a) (component a) (sent_params w a s) (Inr v)]"
    by simp
  with r ex show ?thesis by (simp add: command_result_def)
qed

lemma read_reply_status:
  "400 \<le> resp_status resp \<Longrightarrow>
     read_reply a (Replied resp) = Inl (ClientResponseError (resp_status resp))"
  by (simp add: read_reply_def raise_for_status_def)

text \<open>
  C2. A call of the executor whose first attempt fails with an HTTP status of the trusted
  set makes exactly that one attempt: the events of the call are the one request, with no
  retry and no sleep. In particular, when the device answers getMacAddress with status
  404, \<open>get_mac_address\<close> with \<open>default_on_error=True\<close> returns the empty string
  after that one attempt.
\<close>

theorem trusted_status_single_attempt:
  "(VZugApi_command w a s = (r, s') \<and> outcomes (new_events s s') \<noteq> [] \<and>
      hd (outcomes (new_events s s')) = Inl (ClientResponseError st) \<and>
      st \<in> TRUSTED_STATUS_CODES
    \<longrightarrow> new_events s s' =
          [Attempt (command a) (component a) (sent_params w a s) (Inl (ClientResponseError st))]) \<and>
   (get_mac_address w True s = (r2, s2) \<and>
      appliance w (history s) ''ai''
        [(''command'', ''getMacAddress''), (''_'', str_int (unix_time w (history s)))] = Replied resp \<and>
      resp_status resp = 404
    \<longrightarrow> r2 = Inr (JStr []) \<and>
        new_events s s2 =
          [Attempt ''getMacAddress'' ''ai''
             [(''command'', ''getMacAddress''), (''_'', str_int (unix_time w (history s)))]
             (Inl (ClientResponseError 404))])"
proof (intro conjI impI)
  assume h: "VZugApi_command w a s = (r, s') \<and> outcomes (new_events s s') \<noteq> [] \<and>
      hd (outcomes (new_events s s')) = Inl (ClientResponseError st) \<and>
      st \<in> TRUSTED_STATUS_CODES"
  then have "on_error (ClientResponseError st) = Break" by simp
  with h command_break_first[of w a s r s' "ClientResponseError st"]
  show "new_events s s' =
          [Attempt (command a) (component a) (sent_params w a s) (Inl (ClientResponseError st))]"
    by blast
next
  let ?a = "(default_args ''ai'' ''getMacAddress'')
              \<lparr>raw := True, value_on_err := producer True (JStr [])\<rparr>"
  let ?ps = "[(''command'', ''getMacAddress''), (''_'', str_int (unix_time w (history s)))]"
  assume h: "get_mac_address w True s = (r2, s2) \<and> appliance w (history s) ''ai'' ?ps = Replied resp \<and>
      resp_status resp = 404"
  then have run: "VZugApi_command w ?a s = (r2, s2)" by (simp add: get_mac_address_def)
  have sp: "sent_params w ?a s = ?ps" by (simp add: sent_params_def default_args_def)
  have cs: "command ?a = ''getMacAddress''" "component ?a = ''ai''" "0 < attempts ?a"
    "value_on_err ?a = Some (\<lambda>u. JStr [])"
    by (simp_all add: default_args_def producer_def)
  from h have rr: "read_reply ?a (appliance w (history s) (component ?a) (sent_params w ?a s)) =
      Inl (ClientResponseError 404)"
    unfolding sp cs by (simp add: read_reply_status)
  from command_first[OF run cs(3)] rr
  have first: "outcomes (new_events s s2) \<noteq> []"
    "hd (outcomes (new_events s s2)) = Inl (ClientResponseError 404)" by simp_all
  have br: "on_error (ClientResponseError 404) = Break" by (simp add: TRUSTED_STATUS_CODES_def)
  from command_break_first[OF run first br]
  show "r2 = Inr (JStr [])" and "new_events s s2 = [Attempt ''getMacAddress'' ''ai'' ?ps (Inl (ClientResponseError 404))]"
    unfolding sp cs by simp_all
qed

theorem trusted_status_single_attempt_witness:
  "get_mac_address (constant_world (status_reply 404)) True empty_state =
     (Inr (JStr []),
      \<lparr>history =
         [Attempt ''getMacAddress'' ''ai''
            [(''command'', ''getMacAddress''), (''_'', str_int 1700000000)]
            (Inl (ClientResponseError 404))],
       heap = [[], [(''command'', ''getMacAddress''), (''_'', str_int 1700000000)]]\<rparr>) \<and>
   resp_status \<lparr>resp_status = 404, resp_text = Inr [], resp_json = Inr JNull\<rparr> = 404 \<and>
   new_events empty_state (snd (get_mac_address (constant_world (status_reply 404)) True empty_state)) =
     [Attempt ''getMacAddress'' ''ai''
        [(''command'', ''getMacAddress''), (''_'', str_int 1700000000)]
        (Inl (ClientResponseError 404))]"
proof -
  let ?w = "constant_world (status_reply 404)"
  have dev: "appliance ?w (history empty_state) ''ai''
        [(''command'', ''getMacAddress''), (''_'', str_int (unix_time ?w (history empty_state)))] =
      Replied \<lparr>resp_status = 404, resp_text = Inr [], resp_json = Inr JNull\<rparr>"
    by (simp add: constant_world_def status_reply_def)
  have t: "unix_time ?w (history empty_state) = 1700000000" by (simp add: constant_world_def)
  from trusted_status_single_attempt[of ?w _ empty_state _ _ _ "fst (get_mac_address ?w True empty_state)"
      "snd (get_mac_address ?w True empty_state)"
      "\<lparr>resp_status = 404, resp_text = Inr [], resp_json = Inr JNull\<rparr>"] dev
  have "new_events empty_state (snd (get_mac_address ?w True empty_state)) =
     [Attempt ''getMacAddress'' ''ai''
        [(''command'', ''getMacAddress''), (''_'', str_int 1700000000)]
        (Inl (ClientResponseError 404))]"
    unfolding t by simp
  then show ?thesis by (simp add: run_mac)
qed

text \<open>
  C3. A call of the executor issues at most \<open>attempts\<close> requests. Its events alternate
  between a request and a sleep, starting with a request, and the sleep that follows the
  request number \<open>k + 1\<close> lasts \<open>retry_delay * 2 ^ k\<close>: the first delay is the initial
  retry delay, and each later delay is exactly double the one before.
\<close>

theorem command_attempt_budget_and_backoff:
  assumes "VZugApi_command w a s = (r, s')"
  shows "history s' = history s @ new_events s s' \<and>
         length (filter is_attempt (new_events s s')) \<le> attempts a \<and>
         (\<forall>i < length (new_events s s').
            if even i then is_attempt (new_events s s' ! i)
            else new_events s s' ! i = Sleep (command a) (retry_delay a * 2 ^ (i div 2)))"
proof -
  define rs where "rs = outcomes (new_events s s')"
  define t where "t = trace_of (command a) (component a) (sent_params w a s) (retry_delay a) rs"
  from command_exit[OF assms] obtain ex where
    ok: "loop_events_ok ex (ValueError ''no attempts made'') rs" unfolding rs_def by blast
  have ev: "history s' = history s @ t"
    unfolding t_def rs_def by (rule command_events[OF assms])
  then have ne: "new_events s s' = t" by (rule new_events_append)
  have n: "length rs \<le> attempts a" unfolding rs_def by (rule command_budget[OF assms])
  have 1: "history s' = history s @ new_events s s'" unfolding ne by (rule ev)
  have "length (filter is_attempt t) = length rs" unfolding t_def by simp
  with n have 2: "length (filter is_attempt (new_events s s')) \<le> attempts a"
    unfolding ne by simp
  have 3: "\<forall>i < length (new_events s s').
            if even i then is_attempt (new_events s s' ! i)
            else new_events s s' ! i = Sleep (command a) (retry_delay a * 2 ^ (i div 2))"
    unfolding ne t_def
    using trace_of_shape[OF loop_events_ok_butlast[OF ok]] by blast
  from 1 2 3 show ?thesis by (intro conjI)
qed

theorem command_attempt_budget_and_backoff_witness:
  "length (filter is_attempt (new_events empty_state
      (snd (VZugApi_command (constant_world (status_reply 500))
             (default_args ''ai'' ''getDeviceStatus'') empty_state)))) = 5 \<and>
   attempts (default_args ''ai'' ''getDeviceStatus'') = 5 \<and>
   new_events empty_state
      (snd (VZugApi_command (constant_world (status_reply 500))
             (default_args ''ai'' ''getDeviceStatus'') empty_state)) ! 1 =
     Sleep ''getDeviceStatus'' (1 / 2) \<and>
   new_events empty_state
      (snd (VZugApi_command (constant_world (status_reply 500))
             (default_args ''ai'' ''getDeviceStatus'') empty_state)) ! 3 =
     Sleep ''getDeviceStatus'' 1"
proof -
  let ?S = "snd (VZugApi_command (constant_world (status_reply 500))
             (default_args ''ai'' ''getDeviceStatus'') empty_state)"
  have len: "length (new_events empty_state ?S) = 10" "length (filter is_attempt (new_events empty_state ?S)) = 5"
    by (simp_all add: run_500 new_events_def)
  have a: "attempts (default_args ''ai'' ''getDeviceStatus'') = 5"
    "command (default_args ''ai'' ''getDeviceStatus'') = ''getDeviceStatus''"
    "retry_delay (default_args ''ai'' ''getDeviceStatus'') = 1 / 2"
    by (simp_all add: default_args_def)
  from command_attempt_budget_and_backoff[OF prod.collapse[symmetric]]
  have sh: "\<forall>i < length (new_events empty_state ?S).
            if even i then is_attempt (new_events empty_state ?S ! i)
            else new_events empty_state ?S ! i =
              Sleep (command (default_args ''ai'' ''getDeviceStatus''))
                (retry_delay (default_args ''ai'' ''getDeviceStatus'') * 2 ^ (i div 2))"
    by blast
  from sh len(1) have "new_events empty_state ?S ! 1 = Sleep ''getDeviceStatus'' (1 / 2)"
    unfolding a by (drule_tac x = 1 in spec) simp
  moreover from sh len(1) have "new_events empty_state ?S ! 3 = Sleep ''getDeviceStatus'' 1"
    unfolding a by (drule_tac x = 3 in spec) simp
  ultimately show ?thesis using len(2) a(1) by simp
qed

lemma read_reply_null_list:
  assumes "\<not> raw a" "expected_type a = Some T_list" "resp_status resp < 400"
    "resp_json resp = Inr JNull"
  shows "read_reply a (Replied resp) =
     (if reject_empty a then Inl (AssertionError ''empty response rejected'') else Inr (JArr []))"
  using assms by (simp add: read_reply_def raise_for_status_def check_data_def)

lemma run_list_categories_null:
  "fst (list_categories (constant_world (json_reply JNull)) empty_state) = Inr (JArr [])"
  by (simp add: run_simps list_categories_def)

text \<open>
  C6 as written fails: with \<open>reject_empty\<close> set, a device that answers null to
  a call expecting a list makes the call raise, not return the empty list.
\<close>

theorem null_body_counterexample:
  "\<not> raw nonempty_list_args \<and> expected_type nonempty_list_args = Some T_list \<and>
   fst (VZugApi_command (constant_world (json_reply JNull)) nonempty_list_args empty_state) =
     Inl (AssertionError ''empty response rejected'')"
proof -
  have "\<not> raw nonempty_list_args" "expected_type nonempty_list_args = Some T_list"
    by (simp_all add: nonempty_list_args_def default_args_def)
  then show ?thesis by (simp add: run_null)
qed

lemma attempt_params_trace_of:
  "Attempt c' sg' ps' r \<in> set (trace_of c sg ps d rs) \<Longrightarrow> ps' = ps"
  by (induction rs arbitrary: d) (auto split: if_splits)

lemma run_caller:
  "VZugApi_command (constant_world (status_reply 404)) caller_args caller_state =
   (Inl (ClientResponseError 404),
    \<lparr>history =
       [Attempt ''getCategory'' ''hh''
          [(''value'', ''c1''), (''command'', ''getCategory''), (''_'', str_int 1700000000)]
          (Inl (ClientResponseError 404))],
     heap = [[(''value'', ''c1'')],
             [(''value'', ''c1''), (''command'', ''getCategory''), (''_'', str_int 1700000000)]]\<rparr>)"
  by (simp add: run_simps caller_args_def caller_state_def)

text \<open>
  C10. A call of the executor with a dictionary of the caller as \<open>params\<close> leaves that
  dictionary as it was: the store after the call is the store before it with one new
  dictionary, the copy that got the command name and the cache-buster, and every request
  of the call sends that copy.
\<close>

theorem caller_params_unchanged:
  "VZugApi_command w a s = (r, s') \<and> params a = Some p \<and> p < length (heap s) \<longrightarrow>
     heap s' ! p = heap s ! p \<and>
     heap s' = heap s @
       [AList.update ''_'' (str_int (unix_time w (history s)))
          (AList.update ''command'' (command a) (heap s ! p))] \<and>
     (\<forall>c sg ps v. Attempt c sg ps v \<in> set (new_events s s') \<longrightarrow> ps = heap s' ! length (heap s))"
proof (intro impI)
  assume h: "VZugApi_command w a s = (r, s') \<and> params a = Some p \<and> p < length (heap s)"
  then have run: "VZugApi_command w a s = (r, s')" and p: "params a = Some p"
    and v: "p < length (heap s)" by simp_all
  have sp: "sent_params w a s = AList.update ''_'' (str_int (unix_time w (history s)))
          (AList.update ''command'' (command a) (heap s ! p))"
    using p by (simp add: sent_params_def)
  from command_heap[OF run] p have hp: "heap s' = heap s @ [sent_params w a s]" by simp
  then have 1: "heap s' ! p = heap s ! p" using v by (simp add: nth_append)
  from hp have 3: "heap s' ! length (heap s) = sent_params w a s" by simp
  define t where "t = trace_of (command a) (component a) (sent_params w a s) (retry_delay a)
                        (outcomes (new_events s s'))"
  have "history s' = history s @ t" unfolding t_def by (rule command_events[OF run])
  then have ne: "new_events s s' = t" by (rule new_events_append)
  have 4: "ps = heap s' ! length (heap s)" if "Attempt c sg ps v \<in> set (new_events s s')" for c sg ps v
  proof -
    from that have "Attempt c sg ps v \<in> set t" by (simp only: ne)
    then have "ps = sent_params w a s" unfolding t_def by (rule attempt_params_trace_of)
    with 3 show ?thesis by simp
  qed
  from 1 hp sp 4 show "heap s' ! p = heap s ! p \<and>
     heap s' = heap s @
       [AList.update ''_'' (str_int (unix_time w (history s)))
          (AList.update ''command'' (command a) (heap s ! p))] \<and>
     (\<forall>c sg ps v. Attempt c sg ps v \<in> set (new_events s s') \<longrightarrow> ps = heap s' ! length (heap s))"
    by simp
qed

theorem caller_params_unchanged_witness:
  "params caller_args = Some 0 \<and> 0 < length (heap caller_state) \<and>
   heap caller_state ! 0 = [(''value'', ''c1'')] \<and>
   heap (snd (VZugApi_command (constant_world (status_reply 404)) caller_args caller_state)) ! 0 =
     [(''value'', ''c1'')]"
proof -
  have a: "params caller_args = Some 0" by (simp add: caller_args_def)
  have b: "0 < length (heap caller_state)" "heap caller_state ! 0 = [(''value'', ''c1'')]"
    by (simp_all add: caller_state_def)
  have run: "VZugApi_command (constant_world (status_reply 404)) caller_args caller_state =
      (fst (VZugApi_command (constant_world (status_reply 404)) caller_args caller_state),
       snd (VZugApi_command (constant_world (status_reply 404)) caller_args caller_state))"
    by simp
  from caller_params_unchanged[of "constant_world (status_reply 404)" caller_args caller_state
      "fst (VZugApi_command (constant_world (status_reply 404)) caller_args caller_state)"
      "snd (VZugApi_command (constant_world (status_reply 404)) caller_args caller_state)" 0] run a b(1)
  have "heap (snd (VZugApi_command (constant_world (status_reply 404)) caller_args caller_state)) ! 0 =
     heap caller_state ! 0"
    by blast
  then have "heap (snd (VZugApi_command (constant_world (status_reply 404)) caller_args caller_state)) ! 0 =
     [(''value'', ''c1'')]"
    unfolding b(2) .
  with a b show ?thesis by simp
qed

lemma last_success:
  assumes "loop_events_ok ex e0 rs" "rs \<noteq> []" "last rs = Inr v"
  shows "ex = Returned v"
proof (cases ex)
  case (Returned x)
  with assms show ?thesis by simp
next
  case (Raised e)
  with assms show ?thesis by simp
next
  case (Fell_through l)
  with assms(1) have "list_all caught rs" by simp
  from caught_last[OF this assms(2)] assms(3) show ?thesis by simp
qed

lemma all_caught_falls_through:
  assumes "loop_events_ok ex e0 rs" "list_all caught rs"
  shows "\<exists>l. ex = Fell_through l"
proof (cases ex)
  case (Returned v)
  with assms(1) have "rs \<noteq> []" "last rs = Inr v" by simp_all
  with caught_last[OF assms(2)] show ?thesis by simp
next
  case (Raised e)
  with assms(1) have ne: "rs \<noteq> []" and l: "last rs = Inl e" and p: "on_error e = Propagate"
    by simp_all
  from ne assms(2) have "caught (last rs)" by (simp add: list_all_iff)
  with l p show ?thesis by (simp add: caught_def)
next
  case (Fell_through l)
  then show ?thesis by simp
qed

lemma get_zh_mode_split:
  assumes "get_zh_mode w d s = (r, s')"
  shows "\<exists>r0. VZugApi_command w
          ((default_args ''hh'' ''getZHMode'')
             \<lparr>expected_type := Some T_dict,
              value_on_err := producer d (JObj [(''value'', JInt (- 1))])\<rparr>) s = (r0, s') \<and>
         r = (case r0 of Inl e \<Rightarrow> Inl e | Inr v \<Rightarrow> getitem v ''value'')"
proof -
  let ?a = "(default_args ''hh'' ''getZHMode'')
             \<lparr>expected_type := Some T_dict,
              value_on_err := producer d (JObj [(''value'', JInt (- 1))])\<rparr>"
  obtain r0 s0 where c: "VZugApi_command w ?a s = (r0, s0)" by (cases "VZugApi_command w ?a s")
  with assms show ?thesis
    by (cases r0) (auto simp: get_zh_mode_def await_def)
qed

lemma run_zh_empty_object:
  "fst (get_zh_mode (constant_world (json_reply (JObj []))) True empty_state) =
     Inl (KeyError ''value'')"
  by (simp add: run_simps get_zh_mode_def await_def)

lemma run_zh_empty_object_events:
  "outcomes (new_events empty_state
      (snd (get_zh_mode (constant_world (json_reply (JObj []))) True empty_state))) = [Inr (JObj [])]"
  by (simp add: run_simps get_zh_mode_def await_def)

lemma run_zh_500:
  "fst (get_zh_mode (constant_world (status_reply 500)) True empty_state) = Inr (JInt (- 1))"
  by (simp add: run_simps get_zh_mode_def await_def)

text \<open>
  C9. When the request of \<open>get_zh_mode\<close> succeeds with a JSON object that has no
  \<open>"value"\<close> key, the call raises KeyError, whatever \<open>default_on_error\<close> is: the
  default of -1 stands in only for a request that failed inside the executor (every
  attempt failing with an exception the loop catches), not for the subscript that follows.
\<close>

theorem zh_mode_missing_value_raises:
  "(get_zh_mode w default_on_error s = (r, s') \<and> outcomes (new_events s s') \<noteq> [] \<and>
      last (outcomes (new_events s s')) = Inr (JObj kvs) \<and> map_of kvs ''value'' = None
    \<longrightarrow> r = Inl (KeyError ''value'')) \<and>
   (get_zh_mode w True s = (r1, s1) \<and> list_all caught (outcomes (new_events s s1))
    \<longrightarrow> r1 = Inr (JInt (- 1)))"
proof (intro conjI impI)
  let ?a = "(default_args ''hh'' ''getZHMode'')
             \<lparr>expected_type := Some T_dict,
              value_on_err := producer default_on_error (JObj [(''value'', JInt (- 1))])\<rparr>"
  assume h: "get_zh_mode w default_on_error s = (r, s') \<and> outcomes (new_events s s') \<noteq> [] \<and>
      last (outcomes (new_events s s')) = Inr (JObj kvs) \<and> map_of kvs ''value'' = None"
  then obtain r0 where run: "VZugApi_command w ?a s = (r0, s')"
    and r: "r = (case r0 of Inl e \<Rightarrow> Inl e | Inr v \<Rightarrow> getitem v ''value'')"
    using get_zh_mode_split[of w default_on_error s r s'] by blast
  from command_exit[OF run] obtain ex where
    ok: "loop_events_ok ex (ValueError ''no attempts made'') (outcomes (new_events s s'))"
    and r0: "r0 = command_result ?a ex" by blast
  from h have ne: "outcomes (new_events s s') \<noteq> []"
    and l: "last (outcomes (new_events s s')) = Inr (JObj kvs)"
    and m: "map_of kvs ''value'' = None" by simp_all
  from last_success[OF ok ne l] r0 have "r0 = Inr (JObj kvs)" by (simp add: command_result_def)
  with r m show "r = Inl (KeyError ''value'')" by simp
next
  let ?a = "(default_args ''hh'' ''getZHMode'')
             \<lparr>expected_type := Some T_dict,
              value_on_err := producer True (JObj [(''value'', JInt (- 1))])\<rparr>"
  assume h: "get_zh_mode w True s = (r1, s1) \<and> list_all caught (outcomes (new_events s s1))"
  then obtain r0 where run: "VZugApi_command w ?a s = (r0, s1)"
    and r: "r1 = (case r0 of Inl e \<Rightarrow> Inl e | Inr v \<Rightarrow> getitem v ''value'')"
    using get_zh_mode_split[of w True s r1 s1] by blast
  from command_exit[OF run] obtain ex where
    ok: "loop_events_ok ex (ValueError ''no attempts made'') (outcomes (new_events s s1))"
    and r0: "r0 = command_result ?a ex" by blast
  from h have c: "list_all caught (outcomes (new_events s s1))" by simp
  from all_caught_falls_through[OF ok c] obtain l where "ex = Fell_through l" by blast
  with r0 have "r0 = Inr (JObj [(''value'', JInt (- 1))])"
    by (simp add: command_result_def producer_def)
  with r show "r1 = Inr (JInt (- 1))" by simp
qed

theorem zh_mode_missing_value_raises_witness:
  "outcomes (new_events empty_state
      (snd (get_zh_mode (constant_world (json_reply (JObj []))) True empty_state))) = [Inr (JObj [])] \<and>
   fst (get_zh_mode (constant_world (json_reply (JObj []))) True empty_state) =
     Inl (KeyError ''value'') \<and>
   fst (get_zh_mode (constant_world (status_reply 500)) True empty_state) = Inr (JInt (- 1))"
proof -
  let ?w = "constant_world (json_reply (JObj []))"
  note o = run_zh_empty_object_events
  from zh_mode_missing_value_raises[of ?w True empty_state "fst (get_zh_mode ?w True empty_state)"
      "snd (get_zh_mode ?w True empty_state)" "[]"] o
  have "fst (get_zh_mode ?w True empty_state) = Inl (KeyError ''value'')" by simp
  with o show ?thesis by (simp add: run_zh_500)
qed

lemma keys_dom: "keys d = dom (map_of d)"
  by (simp add: keys_def dom_map_of_conv_image_fst)

lemma extract_keys_options:
  "map_of (options (extract_keys ks p)) x = (if x \<in> set ks then None else map_of (options p) x)"
proof (induction ks arbitrary: p)
  case Nil
  then show ?case by simp
next
  case (Cons k ks)
  show ?case
  proof (cases "map_of (options p) k")
    case None
    with Cons.IH[of p] show ?thesis by auto
  next
    case (Some v)
    with Cons.IH[of "\<lparr>info = AList.update k v (info p), options = AList.delete k (options p)\<rparr>"]
    show ?thesis by (auto simp: delete_conv')
  qed
qed

lemma extract_keys_info:
  "map_of (info (extract_keys ks p)) x =
     (if x \<in> set ks \<and> map_of (options p) x \<noteq> None then map_of (options p) x
      else map_of (info p) x)"
proof (induction ks arbitrary: p)
  case Nil
  then show ?case by simp
next
  case (Cons k ks)
  show ?case
  proof (cases "map_of (options p) k")
    case None
    with Cons.IH[of p] show ?thesis by auto
  next
    case (Some v)
    with Cons.IH[of "\<lparr>info = AList.update k v (info p), options = AList.delete k (options p)\<rparr>"]
    show ?thesis by (auto simp: delete_conv' update_conv')
  qed
qed

lemma build_in_order_maps:
  "map_of (info (build_in_order ks raw_dict)) x = (if x \<in> set ks then map_of raw_dict x else None)"
  "map_of (options (build_in_order ks raw_dict)) x = (if x \<in> set ks then None else map_of raw_dict x)"
  by (auto simp: build_in_order_def extract_keys_info extract_keys_options)

text \<open>
  C7. \<open>Program.build\<close> splits the input dictionary by the ProgramInfo keys (id, name,
  status, stepIds), in whatever order the key set is iterated: the keys of \<open>info\<close> are
  the ProgramInfo keys present in the input, the keys of \<open>options\<close> are the other
  keys of the input, the two key sets are disjoint and together they are the input's key
  set; every key keeps its value.
\<close>

theorem program_build_partition:
  assumes "set ks = set ProgramInfo_keys"
  shows "keys (info (build_in_order ks raw_dict)) = keys raw_dict \<inter> {''id'', ''name'', ''status'', ''stepIds''} \<and>
         keys (options (build_in_order ks raw_dict)) = keys raw_dict - {''id'', ''name'', ''status'', ''stepIds''} \<and>
         keys (info (build_in_order ks raw_dict)) \<inter> keys (options (build_in_order ks raw_dict)) = {} \<and>
         keys (info (build_in_order ks raw_dict)) \<union> keys (options (build_in_order ks raw_dict)) = keys raw_dict \<and>
         (\<forall>k. map_of (info (build_in_order ks raw_dict)) k =
                (if k \<in> {''id'', ''name'', ''status'', ''stepIds''} then map_of raw_dict k else None)) \<and>
         (\<forall>k. map_of (options (build_in_order ks raw_dict)) k =
                (if k \<in> {''id'', ''name'', ''status'', ''stepIds''} then None else map_of raw_dict k))"
proof -
  define K where "K = {''id'', ''name'', ''status'', ''stepIds''}"
  define B where "B = build_in_order ks raw_dict"
  have sK: "set ks = K" using assms by (simp add: ProgramInfo_keys_def K_def)
  have i: "map_of (info B) k = (if k \<in> K then map_of raw_dict k else None)" for k
    unfolding sK[symmetric] B_def by (rule build_in_order_maps)
  have o: "map_of (options B) k = (if k \<in> K then None else map_of raw_dict k)" for k
    unfolding sK[symmetric] B_def by (rule build_in_order_maps)
  have di: "keys (info B) = keys raw_dict \<inter> K"
    unfolding keys_dom by (auto simp: domIff i split: if_splits)
  have do: "keys (options B) = keys raw_dict - K"
    unfolding keys_dom by (auto simp: domIff o split: if_splits)
  have dj: "keys (info B) \<inter> keys (options B) = {}" unfolding di do by blast
  have un: "keys (info B) \<union> keys (options B) = keys raw_dict" unfolding di do by blast
  from di do dj un i o
  have "keys (info B) = keys raw_dict \<inter> K \<and>
         keys (options B) = keys raw_dict - K \<and>
         keys (info B) \<inter> keys (options B) = {} \<and>
         keys (info B) \<union> keys (options B) = keys raw_dict \<and>
         (\<forall>k. map_of (info B) k = (if k \<in> K then map_of raw_dict k else None)) \<and>
         (\<forall>k. map_of (options B) k = (if k \<in> K then None else map_of raw_dict k))"
    by (intro conjI allI)
  then show ?thesis unfolding K_def B_def .
qed

theorem program_build_partition_witness:
  "set [''stepIds'', ''status'', ''name'', ''id''] = set ProgramInfo_keys \<and>
   keys (info (build_in_order [''stepIds'', ''status'', ''name'', ''id''] alltag_kurz)) =
     {''id'', ''name'', ''status''} \<and>
   keys (options (build_in_order [''stepIds'', ''status'', ''name'', ''id''] alltag_kurz)) =
     {''duration'', ''optiStart''} \<and>
   keys (info (Program_build alltag_kurz)) = {''id'', ''name'', ''status''} \<and>
   keys (options (Program_build alltag_kurz)) = {''duration'', ''optiStart''}"
proof -
  have s: "set [''stepIds'', ''status'', ''name'', ''id''] = set ProgramInfo_keys"
    by (auto simp: ProgramInfo_keys_def)
  have k: "keys alltag_kurz = {''id'', ''name'', ''status'', ''duration'', ''optiStart''}"
    by (simp add: keys_def alltag_kurz_def)
  have a: "keys alltag_kurz \<inter> {''id'', ''name'', ''status'', ''stepIds''} = {''id'', ''name'', ''status''}"
    unfolding k by auto
  have b: "keys alltag_kurz - {''id'', ''name'', ''status'', ''stepIds''} = {''duration'', ''optiStart''}"
    unfolding k by auto
  from program_build_partition[OF s, of alltag_kurz]
       program_build_partition[OF refl, of alltag_kurz] s a b
  show ?thesis unfolding Program_build_def by simp
qed

lemma config_loop_raises:
  "config_loop w (k # ks) tree s = (Inl (RuntimeError ''await wasn't used with future''), s)"
  by (simp add: asyncio_gather_def)

lemma aggregate_config_nonempty:
  assumes "list_categories w s = (Inr (JArr (k # ks)), s1)"
  shows "aggregate_config w s = (Inl (RuntimeError ''await wasn't used with future''), s1)"
  using assms by (simp add: aggregate_config_def await_def asyncio_gather_def)

lemma run_two_categories:
  "fst (list_categories two_categories_world empty_state) = Inr (JArr [JStr ''c1'', JStr ''c2''])"
  by (simp add: list_categories_def VZugApi_command_def prepare_eval sent_params_def once_eval
        read_reply_def raise_for_status_def check_data_def default_args_def retry_loop_numeral
        two_categories_world_def two_categories_def json_reply_def)

text \<open>
  C4. On the device with the categories c1 (one command, x) and c2 (no command),
  \<open>aggregate_config\<close> does not return a tree: the future of \<open>asyncio.gather\<close> for the
  first category is assigned to two targets without being awaited, which raises
  RuntimeError. The same happens on every device that reports a category.
\<close>

theorem aggregate_config_two_categories:
  "fst (aggregate_config two_categories_world empty_state) =
     Inl (RuntimeError ''await wasn't used with future'')"
proof -
  obtain r s1 where l: "list_categories two_categories_world empty_state = (r, s1)"
    by (cases "list_categories two_categories_world empty_state")
  with run_two_categories have "r = Inr (JArr [JStr ''c1'', JStr ''c2''])" by simp
  with l aggregate_config_nonempty[of two_categories_world empty_state "JStr ''c1''" "[JStr ''c2'']" s1]
  show ?thesis by simp
qed

lemma command_attempts_le:
  assumes run: "VZugApi_command w a s = (r, s')"
  shows "length (filter is_attempt (new_events s s')) \<le> attempts a"
proof -
  define rs where "rs = outcomes (new_events s s')"
  define t where "t = trace_of (command a) (component a) (sent_params w a s) (retry_delay a) rs"
  have "history s' = history s @ t" unfolding t_def rs_def by (rule command_events[OF run])
  then have ne: "new_events s s' = t" by (rule new_events_append)
  have n: "length rs \<le> attempts a" unfolding rs_def by (rule command_budget[OF run])
  have "length (filter is_attempt t) = length rs" unfolding t_def by simp
  with n show ?thesis unfolding ne by simp
qed

lemma command_no_default:
  assumes run: "VZugApi_command w a s = (r, s')" and nd: "value_on_err a = None"
    and f: "list_all failed (outcomes (new_events s s'))"
  shows "r = Inl (last_failure (outcomes (new_events s s')))"
proof -
  define rs where "rs = outcomes (new_events s s')"
  from command_exit[OF run] obtain ex where
    ok: "loop_events_ok ex (ValueError ''no attempts made'') rs" and r: "r = command_result a ex"
    unfolding rs_def by blast
  from f have f': "list_all failed rs" unfolding rs_def .
  have "r = Inl (last_failure rs)"
  proof (cases ex)
    case (Returned v)
    with ok have "rs \<noteq> []" "last rs = Inr v" by simp_all
    moreover from \<open>rs \<noteq> []\<close> f' have "failed (last rs)" by (simp add: list_all_iff)
    ultimately show ?thesis by (simp add: failed_def)
  next
    case (Raised e)
    with ok r show ?thesis by (simp add: last_failure_def command_result_def)
  next
    case (Fell_through l)
    with ok r nd show ?thesis by (simp add: last_failure_def command_result_def)
  qed
  then show ?thesis unfolding rs_def .
qed

lemma new_events_same_history: "history s0 = history s \<Longrightarrow> new_events s0 s' = new_events s s'"
  by (simp add: new_events_def)

lemma run_do_ai_update_500:
  "length (filter is_attempt (new_events empty_state
      (snd (do_ai_update (constant_world (status_reply 500)) empty_state)))) = 5"
  by (simp add: run_simps do_ai_update_def discard_def await_def return_def)

lemma run_set_command_500:
  "set_command (constant_world (status_reply 500)) ''Language'' ''de'' empty_state =
   (Inl (ClientResponseError 500),
    \<lparr>history =
       [Attempt ''setLanguage'' ''hh''
          [(''value'', ''de''), (''command'', ''setLanguage''), (''_'', str_int 1700000000)]
          (Inl (ClientResponseError 500)),
        Sleep ''setLanguage'' (1 / 2),
        Attempt ''setLanguage'' ''hh''
          [(''value'', ''de''), (''command'', ''setLanguage''), (''_'', str_int 1700000000)]
          (Inl (ClientResponseError 500)),
        Sleep ''setLanguage'' 1],
     heap = [[(''value'', ''de'')],
             [(''value'', ''de''), (''command'', ''setLanguage''), (''_'', str_int 1700000000)]]\<rparr>)"
  by (simp add: run_simps set_command_def with_value_def alloc_def discard_def await_def return_def)

text \<open>
  C5 as written fails for the budget: against a device that answers every request
  with status 500, \<open>do_ai_update\<close> makes five requests, not two.
\<close>

theorem write_budget_counterexample:
  "length (filter is_attempt (new_events empty_state
      (snd (do_ai_update (constant_world (status_reply 500)) empty_state)))) = 5"
  by (rule run_do_ai_update_500)

lemma aggregate_state_split:
  "aggregate_state w d = await (get_zh_mode w True) (after_zh_mode w d)"
  unfolding aggregate_state_def after_zh_mode_def by (rule refl)

lemma emits_onlyI:
  "(\<And>s. \<exists>evs. history (snd (m s)) = history s @ evs \<and> owner ` set evs \<subseteq> C) \<Longrightarrow> emits_only C m"
  by (simp add: emits_only_def)

lemma emits_onlyD:
  "emits_only C m \<Longrightarrow> \<exists>evs. history (snd (m s)) = history s @ evs \<and> owner ` set evs \<subseteq> C"
  by (simp add: emits_only_def)

lemma emits_only_mono: "emits_only C m \<Longrightarrow> C \<subseteq> D \<Longrightarrow> emits_only D m"
  unfolding emits_only_def by (meson subset_trans)

lemma emits_only_return: "emits_only C (return v)"
  by (rule emits_onlyI) (simp add: return_def)

lemma emits_only_pure: "emits_only C (\<lambda>s. (f s, s))"
  by (rule emits_onlyI) simp

lemma emits_only_await:
  assumes m: "emits_only C m" and f: "\<And>v. emits_only C (f v)"
  shows "emits_only C (await m f)"
proof (rule emits_onlyI)
  fix s
  obtain r s1 where ms: "m s = (r, s1)" by (cases "m s")
  from emits_onlyD[OF m, of s] ms obtain e1 where
    h1: "history s1 = history s @ e1" and o1: "owner ` set e1 \<subseteq> C" by auto
  show "\<exists>evs. history (snd (await m f s)) = history s @ evs \<and> owner ` set evs \<subseteq> C"
  proof (cases r)
    case (Inl e)
    with ms h1 o1 show ?thesis by (auto simp: await_def)
  next
    case (Inr v)
    from emits_onlyD[OF f, of v s1] obtain e2 where
      h2: "history (snd (f v s1)) = history s1 @ e2" and o2: "owner ` set e2 \<subseteq> C" by auto
    from Inr ms have "await m f s = f v s1" by (simp add: await_def)
    with h1 h2 have "history (snd (await m f s)) = history s @ (e1 @ e2)" by simp
    moreover from o1 o2 have "owner ` set (e1 @ e2) \<subseteq> C" by auto
    ultimately show ?thesis by blast
  qed
qed

lemma emits_only_command: "emits_only {command a} (VZugApi_command w a)"
proof (rule emits_onlyI)
  fix s
  obtain r s' where run: "VZugApi_command w a s = (r, s')" by (cases "VZugApi_command w a s")
  define t where "t = trace_of (command a) (component a) (sent_params w a s) (retry_delay a)
                        (outcomes (new_events s s'))"
  have h: "history s' = history s @ t" unfolding t_def by (rule command_events[OF run])
  have "owner ` set t \<subseteq> {command a}" unfolding t_def using owner_trace_of by fastforce
  with h run show "\<exists>evs. history (snd (VZugApi_command w a s)) = history s @ evs \<and>
      owner ` set evs \<subseteq> {command a}" by auto
qed

lemma emits_only_get_zh_mode: "emits_only {''getZHMode''} (get_zh_mode w d)"
proof -
  let ?a = "(default_args ''hh'' ''getZHMode'')
             \<lparr>expected_type := Some T_dict,
              value_on_err := producer d (JObj [(''value'', JInt (- 1))])\<rparr>"
  have c: "command ?a = ''getZHMode''" by (simp add: default_args_def)
  have "emits_only {''getZHMode''} (VZugApi_command w ?a)"
    using emits_only_command[of ?a w] unfolding c .
  then show ?thesis unfolding get_zh_mode_def
    by (intro emits_only_await emits_only_pure)
qed

lemma emits_only_accessors:
  "emits_only {''getDeviceStatus''} (get_device_status w d)"
  "emits_only {''getLastPUSHNotifications''} (get_last_push_notifications w d)"
  "emits_only {''getEcoInfo''} (get_eco_info w d)"
proof -
  show "emits_only {''getDeviceStatus''} (get_device_status w d)"
    using emits_only_command[of "(default_args ''ai'' ''getDeviceStatus'')
          \<lparr>expected_type := Some T_dict, value_on_err := producer d (JObj [])\<rparr>" w]
    by (simp add: get_device_status_def default_args_def)
  show "emits_only {''getLastPUSHNotifications''} (get_last_push_notifications w d)"
    using emits_only_command[of "(default_args ''ai'' ''getLastPUSHNotifications'')
          \<lparr>expected_type := Some T_list, value_on_err := producer d (JArr [])\<rparr>" w]
    by (simp add: get_last_push_notifications_def default_args_def)
  show "emits_only {''getEcoInfo''} (get_eco_info w d)"
    using emits_only_command[of "(default_args ''hh'' ''getEcoInfo'')
          \<lparr>expected_type := Some T_dict, value_on_err := producer d (JObj [])\<rparr>" w]
    by (simp add: get_eco_info_def default_args_def)
qed

lemma emits_only_after_zh_mode:
  "emits_only {''getDeviceStatus'', ''getLastPUSHNotifications'', ''getEcoInfo''}
     (after_zh_mode w d zh)"
proof -
  let ?C = "{''getDeviceStatus'', ''getLastPUSHNotifications'', ''getEcoInfo''}"
  have a: "emits_only ?C (get_device_status w d)"
    by (rule emits_only_mono[OF emits_only_accessors(1)]) simp
  have b: "emits_only ?C (get_last_push_notifications w d)"
    by (rule emits_only_mono[OF emits_only_accessors(2)]) simp
  have c: "emits_only ?C (get_eco_info w d)"
    by (rule emits_only_mono[OF emits_only_accessors(3)]) simp
  have inner: "emits_only ?C
      (await (get_last_push_notifications w d) (\<lambda>notes.
        await (get_eco_info w d) (\<lambda>eco.
        return \<lparr>zh_mode = zh, device = dev, device_fetched_at = t,
                notifications = notes, eco_info = eco\<rparr>)))" for dev t
    by (intro emits_only_await b c emits_only_return)
  have step: "emits_only ?C (\<lambda>s.
       (let fetched_at = unix_time w (history s) in
        await (get_last_push_notifications w d) (\<lambda>notes.
        await (get_eco_info w d) (\<lambda>eco.
        return \<lparr>zh_mode = zh, device = dev, device_fetched_at = fetched_at,
                notifications = notes, eco_info = eco\<rparr>))) s)" for dev
  proof (rule emits_onlyI)
    fix s
    from emits_onlyD[OF inner[of dev "unix_time w (history s)"], of s]
    show "\<exists>evs. history (snd ((let fetched_at = unix_time w (history s) in
        await (get_last_push_notifications w d) (\<lambda>notes.
        await (get_eco_info w d) (\<lambda>eco.
        return \<lparr>zh_mode = zh, device = dev, device_fetched_at = fetched_at,
                notifications = notes, eco_info = eco\<rparr>))) s)) = history s @ evs \<and>
        owner ` set evs \<subseteq> ?C"
      by (simp add: Let_def)
  qed
  show ?thesis
    unfolding after_zh_mode_def
    by (rule emits_only_await[OF a step])
qed

lemma get_zh_mode_emits_first:
  assumes "get_zh_mode w d s = (r, s1)"
  shows "new_events s s1 \<noteq> [] \<and> history s1 = history s @ new_events s s1 \<and>
         (\<forall>e \<in> set (new_events s s1). owner e = ''getZHMode'')"
proof -
  let ?a = "(default_args ''hh'' ''getZHMode'')
             \<lparr>expected_type := Some T_dict,
              value_on_err := producer d (JObj [(''value'', JInt (- 1))])\<rparr>"
  from get_zh_mode_split[OF assms] obtain r0 where run: "VZugApi_command w ?a s = (r0, s1)"
    by blast
  have pos: "0 < attempts ?a" by (simp add: default_args_def)
  from command_first[OF run pos] have "outcomes (new_events s s1) \<noteq> []" by simp
  then have ne: "new_events s s1 \<noteq> []" by auto
  from emits_onlyD[OF emits_only_get_zh_mode, of w d s] assms obtain evs where
    h: "history s1 = history s @ evs" and o: "owner ` set evs \<subseteq> {''getZHMode''}" by auto
  from h have "new_events s s1 = evs" by (rule new_events_append)
  with ne h o show ?thesis by auto
qed

lemma run_aggregate_state_404:
  "map owner (new_events empty_state
      (snd (aggregate_state (constant_world (status_reply 404)) True empty_state))) =
     [''getZHMode'', ''getDeviceStatus'', ''getLastPUSHNotifications'', ''getEcoInfo'']"
  by (simp add: run_simps aggregate_state_def await_def return_def get_zh_mode_def
        get_device_status_def get_last_push_notifications_def get_eco_info_def)

text \<open>
  C8. In every run of \<open>aggregate_state\<close> the events are those of the ZH-mode fetch,
  which are there (it makes at least one request) and are what \<open>get_zh_mode\<close> with
  \<open>default_on_error=True\<close> does from the same state, followed by events of the device
  status, push notification and eco info fetches only: the ZH-mode fetch is over before
  any other fetch begins.
\<close>

theorem aggregate_state_zh_mode_first:
  "aggregate_state w default_on_error s = (r, s') \<longrightarrow>
     (\<exists>zh rest.
        new_events s s' = zh @ rest \<and>
        zh = new_events s (snd (get_zh_mode w True s)) \<and> zh \<noteq> [] \<and>
        (\<forall>e \<in> set zh. owner e = ''getZHMode'') \<and>
        (\<forall>e \<in> set rest.
           owner e \<in> {''getDeviceStatus'', ''getLastPUSHNotifications'', ''getEcoInfo''}))"
proof
  define C where "C = {''getDeviceStatus'', ''getLastPUSHNotifications'', ''getEcoInfo''}"
  assume run: "aggregate_state w default_on_error s = (r, s')"
  obtain rz s1 where z: "get_zh_mode w True s = (rz, s1)" by (cases "get_zh_mode w True s")
  define zh where "zh = new_events s s1"
  note zf = get_zh_mode_emits_first[OF z, folded zh_def]
  from zf have ne: "zh \<noteq> []" by (rule conjunct1)
  from zf have h1: "history s1 = history s @ zh" by (elim conjE)
  from zf have o1: "\<forall>e \<in> set zh. owner e = ''getZHMode''" by (elim conjE)
  have ex: "\<exists>rest. history s' = history s1 @ rest \<and> owner ` set rest \<subseteq> C"
  proof (cases rz)
    case (Inl e)
    with run z have "s' = s1" by (simp add: aggregate_state_split await_def)
    then have "history s' = history s1 @ [] \<and> owner ` set [] \<subseteq> C" by simp
    then show ?thesis by (rule exI)
  next
    case (Inr v)
    with run z have a: "after_zh_mode w default_on_error v s1 = (r, s')"
      by (simp add: aggregate_state_split await_def)
    from emits_onlyD[OF emits_only_after_zh_mode, of w default_on_error v s1]
    show ?thesis unfolding a C_def by simp
  qed
  then obtain rest where h2: "history s' = history s1 @ rest" and o2: "owner ` set rest \<subseteq> C"
    by (elim exE conjE)
  from h1 h2 have "history s' = history s @ (zh @ rest)" by simp
  then have n: "new_events s s' = zh @ rest" by (rule new_events_append)
  from o2 have o2': "\<forall>e \<in> set rest. owner e \<in> C" by (simp add: image_subset_iff)
  have zz: "zh = new_events s (snd (get_zh_mode w True s))" unfolding zh_def z by simp
  from n zz ne o1 o2' have "new_events s s' = zh @ rest \<and>
        zh = new_events s (snd (get_zh_mode w True s)) \<and> zh \<noteq> [] \<and>
        (\<forall>e \<in> set zh. owner e = ''getZHMode'') \<and>
        (\<forall>e \<in> set rest. owner e \<in> C)"
    by (intro conjI)
  then show "\<exists>zh rest.
        new_events s s' = zh @ rest \<and>
        zh = new_events s (snd (get_zh_mode w True s)) \<and> zh \<noteq> [] \<and>
        (\<forall>e \<in> set zh. owner e = ''getZHMode'') \<and>
        (\<forall>e \<in> set rest.
           owner e \<in> {''getDeviceStatus'', ''getLastPUSHNotifications'', ''getEcoInfo''})"
    unfolding C_def by (intro exI)
qed

theorem aggregate_state_zh_mode_first_witness:
  "owner (hd (new_events empty_state
      (snd (aggregate_state (constant_world (status_reply 404)) True empty_state)))) = ''getZHMode'' \<and>
   map owner (new_events empty_state
      (snd (aggregate_state (constant_world (status_reply 404)) True empty_state))) =
     [''getZHMode'', ''getDeviceStatus'', ''getLastPUSHNotifications'', ''getEcoInfo'']"
proof -
  let ?w = "constant_world (status_reply 404)"
  let ?S = "snd (aggregate_state ?w True empty_state)"
  have run: "aggregate_state ?w True empty_state = (fst (aggregate_state ?w True empty_state), ?S)"
    by simp
  from aggregate_state_zh_mode_first[of ?w True empty_state "fst (aggregate_state ?w True empty_state)" ?S]
    run
  obtain zh rest where n: "new_events empty_state ?S = zh @ rest" and ne: "zh \<noteq> []"
    and o: "\<forall>e \<in> set zh. owner e = ''getZHMode''" by (elim impE exE conjE)
  from n ne have "hd (new_events empty_state ?S) = hd zh" by simp
  with ne o have "owner (hd (new_events empty_state ?S)) = ''getZHMode''" by simp
  with run_aggregate_state_404 show ?thesis by (intro conjI)
qed

lemma uncaught_is_last:
  assumes ok: "loop_events_ok ex e0 rs" and m: "Inl e \<in> set rs" and p: "on_error e = Propagate"
  shows "ex = Raised e \<and> last rs = Inl e"
proof -
  have nr: "\<not> retried (Inl e)" using p by (simp add: retried_def)
  from m have ne: "rs \<noteq> []" by auto
  then have split: "rs = butlast rs @ [last rs]" by simp
  have "list_all retried (butlast rs)" using ok by (rule loop_events_ok_butlast)
  with nr have "Inl e \<notin> set (butlast rs)" by (auto simp: list_all_iff)
  with m split have l: "last rs = Inl e"
    by (metis Un_iff empty_iff empty_set set_ConsD set_append)
  show ?thesis
  proof (cases ex)
    case (Returned v)
    with ok l show ?thesis by simp
  next
    case (Raised e')
    with ok l show ?thesis by simp
  next
    case (Fell_through x)
    with ok have "list_all caught rs" by simp
    with m have "caught (Inl e)" by (auto simp: list_all_iff)
    with p show ?thesis by (simp add: caught_def)
  qed
qed

lemma run_not_json:
  "get_device_status (constant_world not_json_reply) True empty_state =
   (Inl (ValueError ''JSONDecodeError''),
    \<lparr>history =
       [Attempt ''getDeviceStatus'' ''ai''
          [(''command'', ''getDeviceStatus''), (''_'', str_int 1700000000)]
          (Inl (ValueError ''JSONDecodeError''))],
     heap = [[], [(''command'', ''getDeviceStatus''), (''_'', str_int 1700000000)]]\<rparr>)"
  by (simp add: run_simps get_device_status_def not_json_reply_def)

text \<open>
  C1, as amended. When a default-value producer is supplied and every attempt made fails
  with an exception the loop catches (an HTTP status error, a client error or an
  assertion error), the call returns the producer's value and raises nothing. When no
  producer is supplied and every attempt made fails, the call raises the failure of the
  last attempt (the initial "no attempts made" error when there was none). An attempt
  that fails with any other exception is the last one, and the call raises that
  exception, whether a producer is supplied or not.
\<close>

theorem command_failure_outcomes:
  assumes "VZugApi_command w a s = (r, s')"
  shows "(\<forall>f. value_on_err a = Some f \<and> list_all caught (outcomes (new_events s s'))
            \<longrightarrow> r = Inr (f ())) \<and>
         (value_on_err a = None \<and> list_all failed (outcomes (new_events s s'))
            \<longrightarrow> r = Inl (last_failure (outcomes (new_events s s')))) \<and>
         (\<forall>e. Inl e \<in> set (outcomes (new_events s s')) \<and> on_error e = Propagate
            \<longrightarrow> r = Inl e \<and> last (outcomes (new_events s s')) = Inl e)"
proof -
  define rs where "rs = outcomes (new_events s s')"
  from command_exit[OF assms] obtain ex where
    ok: "loop_events_ok ex (ValueError ''no attempts made'') rs" and
    r: "r = command_result a ex"
    unfolding rs_def by blast
  have a1: "r = Inr (f ())" if "value_on_err a = Some f" "list_all caught rs" for f
  proof -
    from all_caught_falls_through[OF ok that(2)] obtain l where "ex = Fell_through l" by blast
    with r that(1) show ?thesis by (simp add: command_result_def)
  qed
  have a2: "r = Inl (last_failure rs)" if "value_on_err a = None" "list_all failed rs"
    using command_no_default[OF assms that(1)] that(2) unfolding rs_def by simp
  have a3: "r = Inl e \<and> last rs = Inl e" if "Inl e \<in> set rs" "on_error e = Propagate" for e
  proof -
    from uncaught_is_last[OF ok that] have "ex = Raised e" "last rs = Inl e" by simp_all
    with r show ?thesis by (simp add: command_result_def)
  qed
  from a1 a2 a3 show ?thesis unfolding rs_def by blast
qed

theorem command_failure_outcomes_witness:
  "list_all caught (outcomes (new_events empty_state
      (snd (VZugApi_command (constant_world (status_reply 500))
             (default_args ''ai'' ''getDeviceStatus'') empty_state)))) \<and>
   fst (VZugApi_command (constant_world (status_reply 500))
          ((default_args ''ai'' ''getDeviceStatus'')\<lparr>value_on_err := Some (\<lambda>u. JObj [])\<rparr>)
          empty_state) = Inr (JObj []) \<and>
   fst (VZugApi_command (constant_world (status_reply 500))
          (default_args ''ai'' ''getDeviceStatus'') empty_state) = Inl (ClientResponseError 500) \<and>
   on_error (TypeError ''object has no len()'') = Propagate \<and>
   fst (VZugApi_command (constant_world (json_reply (JInt 5))) unsized_args empty_state) =
     Inl (TypeError ''object has no len()'')"
proof -
  let ?S = "snd (VZugApi_command (constant_world (status_reply 500))
                  (default_args ''ai'' ''getDeviceStatus'') empty_state)"
  have c: "list_all caught (outcomes (new_events empty_state ?S))"
    by (simp add: run_500 new_events_def caught_def TRUSTED_STATUS_CODES_def)
  then have f: "list_all failed (outcomes (new_events empty_state ?S))"
    by (simp add: run_500 new_events_def failed_def)
  have l: "last_failure (outcomes (new_events empty_state ?S)) = ClientResponseError 500"
    by (simp add: run_500 new_events_def last_failure_def)
  have v: "value_on_err (default_args ''ai'' ''getDeviceStatus'') = None"
    by (simp add: default_args_def)
  from command_failure_outcomes[OF run_500_default] c
  have 1: "fst (VZugApi_command (constant_world (status_reply 500))
          ((default_args ''ai'' ''getDeviceStatus'')\<lparr>value_on_err := Some (\<lambda>u. JObj [])\<rparr>)
          empty_state) = Inr (JObj [])"
    by (simp add: run_500_default)
  from command_failure_outcomes[OF run_500] v f l
  have 2: "fst (VZugApi_command (constant_world (status_reply 500))
          (default_args ''ai'' ''getDeviceStatus'') empty_state) = Inl (ClientResponseError 500)"
    by (simp add: run_500)
  have p: "on_error (TypeError ''object has no len()'') = Propagate" by simp
  have m: "Inl (TypeError ''object has no len()'') \<in> set (outcomes (new_events empty_state
      (snd (VZugApi_command (constant_world (json_reply (JInt 5))) unsized_args empty_state))))"
    by (simp add: run_unsized new_events_def)
  from command_failure_outcomes[OF prod.collapse[symmetric]] m p
  have 3: "fst (VZugApi_command (constant_world (json_reply (JInt 5))) unsized_args empty_state) =
     Inl (TypeError ''object has no len()'')"
    by blast
  from c 1 2 p 3 show ?thesis by simp
qed

text \<open>
  C1 as written fails: \<open>get_device_status\<close> with \<open>default_on_error=True\<close>
  supplies a producer, and against a device whose body is not JSON its one attempt fails
  and the call raises the decoding error instead of returning the default.
\<close>

theorem command_default_not_json_counterexample:
  "producer True (JObj []) \<noteq> None \<and>
   list_all failed (outcomes (new_events empty_state
      (snd (get_device_status (constant_world not_json_reply) True empty_state)))) \<and>
   fst (get_device_status (constant_world not_json_reply) True empty_state) =
     Inl (ValueError ''JSONDecodeError'')"
proof -
  have "producer True (JObj []) \<noteq> None" by (simp add: producer_def)
  then show ?thesis by (simp add: run_not_json new_events_def failed_def)
qed

lemma retry_loop_second:
  assumes run: "retry_loop w a fp (Suc (Suc n)) d e0 s = (ex, s')"
    and ret: "retried (fst (once w a fp s))"
  shows "2 \<le> length (outcomes (new_events s s'))"
proof -
  obtain r s1 where o: "once w a fp s = (r, s1)" by (cases "once w a fp s")
  from ret o obtain e where r: "r = Inl e" and re: "on_error e = Retry"
    by (cases r) (simp_all add: retried_def)
  let ?s2 = "log_event (Sleep (command a) d) s1"
  from run o r re have rec: "retry_loop w a fp (Suc n) (d * 2) e ?s2 = (ex, s')" by simp
  from retry_loop_trace[OF rec] obtain rs where
    h: "history s' = history ?s2 @ trace_of (command a) (component a) (heap ?s2 ! fp) (d * 2) rs"
    and ne: "rs \<noteq> []"
    by auto
  from once_state[OF o] have "history ?s2 =
      history s @ [Attempt (command a) (component a) (heap s ! fp) r, Sleep (command a) d]"
    by simp
  with h have "history s' = history s @
      (Attempt (command a) (component a) (heap s ! fp) r # Sleep (command a) d #
       trace_of (command a) (component a) (heap ?s2 ! fp) (d * 2) rs)"
    by simp
  then have "new_events s s' =
      Attempt (command a) (component a) (heap s ! fp) r # Sleep (command a) d #
       trace_of (command a) (component a) (heap ?s2 ! fp) (d * 2) rs"
    by (rule new_events_append)
  then have "outcomes (new_events s s') = r # rs" by simp
  with ne show ?thesis by (cases rs) simp_all
qed

lemma command_retry_first:
  assumes run: "VZugApi_command w a s = (r, s')" and two: "1 < attempts a"
    and ret: "retried (read_reply a (appliance w (history s) (component a) (sent_params w a s)))"
  shows "2 \<le> length (outcomes (new_events s s'))"
proof -
  let ?fp = "length (heap s) + (case params a of None \<Rightarrow> 1 | Some p \<Rightarrow> 0)"
  let ?s3 = "s\<lparr>heap := heap s @ (case params a of None \<Rightarrow> [[]] | Some p \<Rightarrow> []) @ [sent_params w a s]\<rparr>"
  have p: "prepare_params w a s = (?fp, ?s3)" by (rule prepare_eval)
  have fin: "heap ?s3 ! ?fp = sent_params w a s"
    by (cases "params a") (simp_all add: nth_append)
  obtain ex s4 where l: "retry_loop w a ?fp (attempts a) (retry_delay a) (ValueError ''no attempts made'') ?s3 = (ex, s4)"
    by (cases "retry_loop w a ?fp (attempts a) (retry_delay a) (ValueError ''no attempts made'') ?s3")
  from command_split[OF run p l] have s': "s' = s4" by simp
  from two have "attempts a = Suc (Suc (attempts a - 2))" by simp
  then obtain n where n: "attempts a = Suc (Suc n)" ..
  have o: "fst (once w a ?fp ?s3) = read_reply a (appliance w (history s) (component a) (sent_params w a s))"
    unfolding once_eval fin by simp
  from l have l': "retry_loop w a ?fp (Suc (Suc n)) (retry_delay a) (ValueError ''no attempts made'') ?s3 = (ex, s4)"
    unfolding n .
  from ret have ret': "retried (fst (once w a ?fp ?s3))" unfolding o .
  from retry_loop_second[OF l' ret'] have "2 \<le> length (outcomes (new_events ?s3 s4))" .
  moreover have "new_events ?s3 s4 = new_events s s4" by (simp add: new_events_def)
  ultimately show ?thesis unfolding s' by simp
qed

lemma command_retry_events:
  assumes run: "VZugApi_command w a s = (r, s')" and two: "1 < attempts a"
    and rr: "read_reply a (appliance w (history s) (component a) (sent_params w a s)) = Inl e"
    and re: "on_error e = Retry"
  shows "3 \<le> length (new_events s s') \<and>
         new_events s s' ! 0 = Attempt (command a) (component a) (sent_params w a s) (Inl e) \<and>
         new_events s s' ! 1 = Sleep (command a) (retry_delay a) \<and>
         is_attempt (new_events s s' ! 2)"
proof -
  define rs where "rs = outcomes (new_events s s')"
  define t where "t = trace_of (command a) (component a) (sent_params w a s) (retry_delay a) rs"
  have ret: "retried (Inl e)" using re by (simp add: retried_def)
  have "history s' = history s @ t" unfolding t_def rs_def by (rule command_events[OF run])
  then have ne: "new_events s s' = t" by (rule new_events_append)
  from two have pos: "0 < attempts a" by simp
  from command_first[OF run pos] rr have hd: "hd rs = Inl e" unfolding rs_def by simp
  from command_retry_first[OF run two] rr ret have len: "2 \<le> length rs" unfolding rs_def by simp
  then obtain r2 rest where "rs = hd rs # r2 # rest"
    by (cases rs; cases "tl rs") auto
  with hd have rs: "rs = Inl e # r2 # rest" by simp
  have "t = Attempt (command a) (component a) (sent_params w a s) (Inl e) #
            Sleep (command a) (retry_delay a) #
            Attempt (command a) (component a) (sent_params w a s) r2 #
            (if retried r2
             then Sleep (command a) (retry_delay a * 2) #
                  trace_of (command a) (component a) (sent_params w a s) (retry_delay a * 2 * 2) rest
             else trace_of (command a) (component a) (sent_params w a s) (retry_delay a * 2) rest)"
    unfolding t_def rs using ret by simp
  then show ?thesis unfolding ne by simp
qed

text \<open>
  C6, as amended. In a call that is not raw and expects a list, a response whose body
  parses to JSON null passes the type check as the empty list. When \<open>reject_empty\<close> is
  not set the attempt returns the empty list, and a call whose first response is such a
  body returns the empty list. When \<open>reject_empty\<close> is set the attempt fails the
  emptiness check with an assertion error, which is retried like any validation
  failure: with a budget of two or more the call sleeps the initial retry delay and
  makes another request.
\<close>

theorem null_body_empty_list_or_retry:
  "(\<not> raw a \<and> expected_type a = Some T_list \<and> resp_status resp < 400 \<and>
      resp_json resp = Inr JNull
    \<longrightarrow> read_reply a (Replied resp) =
          (if reject_empty a then Inl (AssertionError ''empty response rejected'')
           else Inr (JArr []))) \<and>
   (VZugApi_command w a s = (r, s') \<and> 0 < attempts a \<and> \<not> raw a \<and>
      expected_type a = Some T_list \<and> \<not> reject_empty a \<and>
      appliance w (history s) (component a) (sent_params w a s) = Replied resp \<and>
      resp_status resp < 400 \<and> resp_json resp = Inr JNull
    \<longrightarrow> r = Inr (JArr [])) \<and>
   (VZugApi_command w a s = (r, s') \<and> 1 < attempts a \<and> \<not> raw a \<and>
      expected_type a = Some T_list \<and> reject_empty a \<and>
      appliance w (history s) (component a) (sent_params w a s) = Replied resp \<and>
      resp_status resp < 400 \<and> resp_json resp = Inr JNull
    \<longrightarrow> on_error (AssertionError ''empty response rejected'') = Retry \<and>
        3 \<le> length (new_events s s') \<and>
        new_events s s' ! 0 =
          Attempt (command a) (component a) (sent_params w a s)
            (Inl (AssertionError ''empty response rejected'')) \<and>
        new_events s s' ! 1 = Sleep (command a) (retry_delay a) \<and>
        is_attempt (new_events s s' ! 2))"
proof -
  have c1: "\<not> raw a \<and> expected_type a = Some T_list \<and> resp_status resp < 400 \<and>
      resp_json resp = Inr JNull
    \<longrightarrow> read_reply a (Replied resp) =
          (if reject_empty a then Inl (AssertionError ''empty response rejected'')
           else Inr (JArr []))"
    by (simp add: read_reply_null_list)
  have c2: "VZugApi_command w a s = (r, s') \<and> 0 < attempts a \<and> \<not> raw a \<and>
      expected_type a = Some T_list \<and> \<not> reject_empty a \<and>
      appliance w (history s) (component a) (sent_params w a s) = Replied resp \<and>
      resp_status resp < 400 \<and> resp_json resp = Inr JNull
    \<longrightarrow> r = Inr (JArr [])"
  proof (rule impI)
    assume h: "VZugApi_command w a s = (r, s') \<and> 0 < attempts a \<and> \<not> raw a \<and>
      expected_type a = Some T_list \<and> \<not> reject_empty a \<and>
      appliance w (history s) (component a) (sent_params w a s) = Replied resp \<and>
      resp_status resp < 400 \<and> resp_json resp = Inr JNull"
    then have run: "VZugApi_command w a s = (r, s')" and pos: "0 < attempts a" by simp_all
    from h have "read_reply a (appliance w (history s) (component a) (sent_params w a s)) =
        Inr (JArr [])"
      by (simp add: read_reply_null_list)
    from command_success_first[OF run pos this] show "r = Inr (JArr [])" by (rule conjunct1)
  qed
  have c3: "VZugApi_command w a s = (r, s') \<and> 1 < attempts a \<and> \<not> raw a \<and>
      expected_type a = Some T_list \<and> reject_empty a \<and>
      appliance w (history s) (component a) (sent_params w a s) = Replied resp \<and>
      resp_status resp < 400 \<and> resp_json resp = Inr JNull
    \<longrightarrow> on_error (AssertionError ''empty response rejected'') = Retry \<and>
        3 \<le> length (new_events s s') \<and>
        new_events s s' ! 0 =
          Attempt (command a) (component a) (sent_params w a s)
            (Inl (AssertionError ''empty response rejected'')) \<and>
        new_events s s' ! 1 = Sleep (command a) (retry_delay a) \<and>
        is_attempt (new_events s s' ! 2)"
  proof (rule impI)
    assume h: "VZugApi_command w a s = (r, s') \<and> 1 < attempts a \<and> \<not> raw a \<and>
      expected_type a = Some T_list \<and> reject_empty a \<and>
      appliance w (history s) (component a) (sent_params w a s) = Replied resp \<and>
      resp_status resp < 400 \<and> resp_json resp = Inr JNull"
    then have run: "VZugApi_command w a s = (r, s')" and two: "1 < attempts a" by simp_all
    from h have rr: "read_reply a (appliance w (history s) (component a) (sent_params w a s)) =
        Inl (AssertionError ''empty response rejected'')"
      by (simp add: read_reply_null_list)
    have re: "on_error (AssertionError ''empty response rejected'') = Retry" by simp
    from re command_retry_events[OF run two rr re]
    show "on_error (AssertionError ''empty response rejected'') = Retry \<and>
        3 \<le> length (new_events s s') \<and>
        new_events s s' ! 0 =
          Attempt (command a) (component a) (sent_params w a s)
            (Inl (AssertionError ''empty response rejected'')) \<and>
        new_events s s' ! 1 = Sleep (command a) (retry_delay a) \<and>
        is_attempt (new_events s s' ! 2)"
      by (rule conjI)
  qed
  from c1 c2 c3 show ?thesis by (intro conjI)
qed

theorem null_body_empty_list_or_retry_witness:
  "fst (list_categories (constant_world (json_reply JNull)) empty_state) = Inr (JArr []) \<and>
   read_reply nonempty_list_args (json_reply JNull) =
     Inl (AssertionError ''empty response rejected'') \<and>
   new_events empty_state
     (snd (VZugApi_command (constant_world (json_reply JNull)) nonempty_list_args empty_state)) ! 1 =
     Sleep ''getCategories'' (1 / 2)"
proof -
  let ?w = "constant_world (json_reply JNull)"
  let ?a = "(default_args ''hh'' ''getCategories'')
              \<lparr>expected_type := Some T_list, reject_empty := False\<rparr>"
  let ?resp = "\<lparr>resp_status = 200, resp_text = Inr [], resp_json = Inr JNull\<rparr>"
  note t1 = null_body_empty_list_or_retry[where a = nonempty_list_args and resp = ?resp]
  note t2 = null_body_empty_list_or_retry[where a = ?a and resp = ?resp and w = ?w and s = empty_state
      and r = "fst (VZugApi_command ?w ?a empty_state)" and s' = "snd (VZugApi_command ?w ?a empty_state)"]
  note t3 = null_body_empty_list_or_retry[where a = nonempty_list_args and resp = ?resp and w = ?w
      and s = empty_state
      and r = "fst (VZugApi_command ?w nonempty_list_args empty_state)"
      and s' = "snd (VZugApi_command ?w nonempty_list_args empty_state)"]
  have a: "\<not> raw nonempty_list_args" "expected_type nonempty_list_args = Some T_list"
    "reject_empty nonempty_list_args" "1 < attempts nonempty_list_args"
    "command nonempty_list_args = ''getCategories''" "retry_delay nonempty_list_args = 1 / 2"
    by (simp_all add: nonempty_list_args_def default_args_def)
  have b: "0 < attempts ?a" "\<not> raw ?a" "expected_type ?a = Some T_list" "\<not> reject_empty ?a"
    by (simp_all add: default_args_def)
  have d: "appliance ?w (history empty_state) (component ?a) (sent_params ?w ?a empty_state) = Replied ?resp"
    "appliance ?w (history empty_state) (component nonempty_list_args)
       (sent_params ?w nonempty_list_args empty_state) = Replied ?resp"
    by (simp_all add: constant_world_def json_reply_def)
  from t1 a have 1: "read_reply nonempty_list_args (Replied ?resp) =
     Inl (AssertionError ''empty response rejected'')" by simp
  from t2 b d(1) have 2: "fst (VZugApi_command ?w ?a empty_state) = Inr (JArr [])" by simp
  from t3 a(1-4) d(2) have "new_events empty_state
     (snd (VZugApi_command ?w nonempty_list_args empty_state)) ! 1 =
     Sleep (command nonempty_list_args) (retry_delay nonempty_list_args)" by simp
  then have 3: "new_events empty_state
     (snd (VZugApi_command ?w nonempty_list_args empty_state)) ! 1 = Sleep ''getCategories'' (1 / 2)"
    unfolding a(5,6) .
  from 1 2 3 show ?thesis by (simp add: list_categories_def json_reply_def)
qed

lemma length_outcomes: "length (outcomes evs) = length (filter is_attempt evs)"
  by (induction evs rule: outcomes.induct) simp_all

lemma new_events_self [simp]: "new_events s s = []"
  by (simp add: new_events_def)

lemma retry_loop_exhausts:
  "retry_loop w a fp n d e0 s = (ex, s') \<Longrightarrow>
     list_all retried (outcomes (new_events s s')) \<Longrightarrow>
     length (outcomes (new_events s s')) = n"
proof (induction n arbitrary: d e0 s)
  case 0
  then show ?case by simp
next
  case (Suc n)
  obtain r s1 where o: "once w a fp s = (r, s1)" by (cases "once w a fp s")
  let ?A = "Attempt (command a) (component a) (heap s ! fp) r"
  from once_state[OF o] have h1: "history s1 = history s @ [?A]" by simp
  show ?case
  proof (cases "retried r")
    case False
    have "s' = s1"
    proof (cases r)
      case (Inr v)
      with Suc.prems(1) o show ?thesis by simp
    next
      case (Inl e)
      with False have "on_error e \<noteq> Retry" by (simp add: retried_def)
      with Suc.prems(1) o Inl show ?thesis by (cases "on_error e") simp_all
    qed
    with h1 have "new_events s s' = [?A]" by (simp add: new_events_def)
    with Suc.prems(2) False show ?thesis by simp
  next
    case True
    then obtain e where r: "r = Inl e" and re: "on_error e = Retry"
      by (cases r) (simp_all add: retried_def)
    let ?s2 = "log_event (Sleep (command a) d) s1"
    from Suc.prems(1) o r re have rec: "retry_loop w a fp n (d * 2) e ?s2 = (ex, s')" by simp
    from retry_loop_trace[OF rec] obtain rs where
      h: "history s' = history ?s2 @ trace_of (command a) (component a) (heap ?s2 ! fp) (d * 2) rs"
      by auto
    define t where "t = trace_of (command a) (component a) (heap ?s2 ! fp) (d * 2) rs"
    from h have h': "history s' = history ?s2 @ t" unfolding t_def .
    then have n2: "new_events ?s2 s' = t" by (rule new_events_append)
    from h' h1 have "history s' = history s @ (?A # Sleep (command a) d # t)" by simp
    then have n1: "new_events s s' = ?A # Sleep (command a) d # t" by (rule new_events_append)
    from Suc.prems(2) have "list_all retried (outcomes (new_events ?s2 s'))"
      unfolding n1 n2 by simp
    from Suc.IH[OF rec this] show ?thesis unfolding n1 n2 by simp
  qed
qed

lemma command_exhausts:
  assumes run: "VZugApi_command w a s = (r, s')"
    and ret: "list_all retried (outcomes (new_events s s'))"
  shows "length (filter is_attempt (new_events s s')) = attempts a"
proof -
  let ?fp = "length (heap s) + (case params a of None \<Rightarrow> 1 | Some p \<Rightarrow> 0)"
  let ?s3 = "s\<lparr>heap := heap s @ (case params a of None \<Rightarrow> [[]] | Some p \<Rightarrow> []) @ [sent_params w a s]\<rparr>"
  have p: "prepare_params w a s = (?fp, ?s3)" by (rule prepare_eval)
  obtain ex s4 where l: "retry_loop w a ?fp (attempts a) (retry_delay a) (ValueError ''no attempts made'') ?s3 = (ex, s4)"
    by (cases "retry_loop w a ?fp (attempts a) (retry_delay a) (ValueError ''no attempts made'') ?s3")
  from command_split[OF run p l] have s': "s' = s4" by simp
  have same: "new_events ?s3 s4 = new_events s s4" by (simp add: new_events_def)
  from ret have "list_all retried (outcomes (new_events ?s3 s4))" unfolding same s' .
  from retry_loop_exhausts[OF l this] show ?thesis
    unfolding same s' length_outcomes .
qed

lemma write_outcome_command:
  assumes "value_on_err a = None" "attempts a = n"
  shows "write_outcome n s (VZugApi_command w a s)"
proof -
  obtain r s' where run: "VZugApi_command w a s = (r, s')" by (cases "VZugApi_command w a s")
  from command_attempts_le[OF run] assms(2)
  have 1: "length (filter is_attempt (new_events s s')) \<le> n" by simp
  from command_exhausts[OF run] assms(2)
  have 2: "list_all retried (outcomes (new_events s s'))
         \<longrightarrow> length (filter is_attempt (new_events s s')) = n" by blast
  from command_no_default[OF run assms(1)]
  have 3: "list_all failed (outcomes (new_events s s'))
         \<longrightarrow> r = Inl (last_failure (outcomes (new_events s s')))" by blast
  from 1 2 3 show ?thesis unfolding write_outcome_def run by simp
qed

lemma write_outcome_with_value:
  assumes "value_on_err a = None" "attempts a = n"
  shows "write_outcome n s (with_value w a v s)"
proof -
  let ?s1 = "s\<lparr>heap := heap s @ [[(''value'', v)]]\<rparr>"
  let ?a = "a\<lparr>params := Some (length (heap s))\<rparr>"
  have wv: "with_value w a v s = VZugApi_command w ?a ?s1"
    by (simp add: with_value_def alloc_def)
  have "write_outcome n ?s1 (VZugApi_command w ?a ?s1)"
    using assms by (intro write_outcome_command) simp_all
  moreover have "new_events ?s1 s' = new_events s s'" for s'
    by (rule new_events_same_history) simp
  ultimately show ?thesis unfolding wv write_outcome_def by simp
qed

lemma write_outcome_discard:
  assumes "write_outcome n s (m s)"
  shows "write_outcome n s (discard m s)"
proof (cases "m s")
  case (Pair r s')
  with assms show ?thesis
    by (cases r) (simp_all add: write_outcome_def discard_def await_def return_def)
qed

lemma write_budgets:
  "value_on_err ((default_args sg c)\<lparr>raw := True, attempts := 2\<rparr>) = None"
  "attempts ((default_args sg c)\<lparr>raw := True, attempts := 2\<rparr>) = 2"
  "value_on_err (default_args sg c) = None"
  "attempts (default_args sg c) = 5"
  by (simp_all add: default_args_def)

lemma count_500:
  "length (filter is_attempt (new_events empty_state
      (snd (set_command (constant_world (status_reply 500)) ''Language'' ''de'' empty_state)))) = 2"
  "length (filter is_attempt (new_events empty_state
      (snd (do_command_action (constant_world (status_reply 500)) ''Reset'' empty_state)))) = 2"
  "length (filter is_attempt (new_events empty_state
      (snd (set_program fixed_dumps (constant_world (status_reply 500)) 50 None empty_state)))) = 2"
  "length (filter is_attempt (new_events empty_state
      (snd (do_ai_update (constant_world (status_reply 500)) empty_state)))) = 5"
  "length (filter is_attempt (new_events empty_state
      (snd (do_hhg_update (constant_world (status_reply 500)) empty_state)))) = 5"
  by (simp_all add: run_simps set_command_def do_command_action_def set_program_def
        do_ai_update_def do_hhg_update_def with_value_def alloc_def discard_def await_def
        return_def)

text \<open>
  C5, as amended. No write operation supplies a default-value producer: each of
  \<open>set_command\<close>, \<open>do_command_action\<close>, \<open>set_program\<close>, \<open>do_ai_update\<close> and
  \<open>do_hhg_update\<close> raises the failure of its last attempt when every attempt fails,
  and never returns a made-up result. \<open>set_command\<close>, \<open>do_command_action\<close> and
  \<open>set_program\<close> have a budget of exactly 2 requests; \<open>do_ai_update\<close> and
  \<open>do_hhg_update\<close> pass no budget and have the default budget of exactly 5.
\<close>

theorem write_operations_budget_and_failure:
  "write_outcome 2 s (set_command w cmd v s) \<and>
   write_outcome 2 s (do_command_action w cmd s) \<and>
   write_outcome 2 s (set_program dumps w program_id opts s) \<and>
   write_outcome 5 s (do_ai_update w s) \<and>
   write_outcome 5 s (do_hhg_update w s)"
proof (intro conjI)
  show "write_outcome 2 s (set_command w cmd v s)"
    unfolding set_command_def
    by (intro write_outcome_discard write_outcome_with_value write_budgets)
  show "write_outcome 2 s (do_command_action w cmd s)"
    unfolding do_command_action_def
    by (intro write_outcome_discard write_outcome_command write_budgets)
  show "write_outcome 2 s (set_program dumps w program_id opts s)"
    unfolding set_program_def Let_def
    by (intro write_outcome_with_value write_budgets)
  show "write_outcome 5 s (do_ai_update w s)"
    unfolding do_ai_update_def
    by (intro write_outcome_discard write_outcome_command write_budgets)
  show "write_outcome 5 s (do_hhg_update w s)"
    unfolding do_hhg_update_def
    by (intro write_outcome_discard write_outcome_command write_budgets)
qed

theorem write_operations_budget_and_failure_witness:
  "list_all retried (outcomes (new_events empty_state
      (snd (set_command (constant_world (status_reply 500)) ''Language'' ''de'' empty_state)))) \<and>
   fst (set_command (constant_world (status_reply 500)) ''Language'' ''de'' empty_state) =
     Inl (ClientResponseError 500) \<and>
   length (filter is_attempt (new_events empty_state
      (snd (set_command (constant_world (status_reply 500)) ''Language'' ''de'' empty_state)))) = 2 \<and>
   length (filter is_attempt (new_events empty_state
      (snd (do_command_action (constant_world (status_reply 500)) ''Reset'' empty_state)))) = 2 \<and>
   length (filter is_attempt (new_events empty_state
      (snd (set_program fixed_dumps (constant_world (status_reply 500)) 50 None empty_state)))) = 2 \<and>
   length (filter is_attempt (new_events empty_state
      (snd (do_ai_update (constant_world (status_reply 500)) empty_state)))) = 5 \<and>
   length (filter is_attempt (new_events empty_state
      (snd (do_hhg_update (constant_world (status_reply 500)) empty_state)))) = 5"
proof -
  let ?res = "set_command (constant_world (status_reply 500)) ''Language'' ''de'' empty_state"
  have rt: "list_all retried (outcomes (new_events empty_state (snd ?res)))"
    by (simp add: run_set_command_500 new_events_def retried_def TRUSTED_STATUS_CODES_def)
  have f: "list_all failed (outcomes (new_events empty_state (snd ?res)))"
    by (simp add: run_set_command_500 new_events_def failed_def)
  have l: "last_failure (outcomes (new_events empty_state (snd ?res))) = ClientResponseError 500"
    by (simp add: run_set_command_500 new_events_def last_failure_def)
  from write_operations_budget_and_failure[of empty_state "constant_world (status_reply 500)"
      "''Language''" "''de''"]
  have "write_outcome 2 empty_state ?res" by blast
  with rt f l have r1: "fst ?res = Inl (ClientResponseError 500)"
    and r2: "length (filter is_attempt (new_events empty_state (snd ?res))) = 2"
    unfolding write_outcome_def by simp_all
  from rt r1 r2 count_500(2-5) show ?thesis by (intro conjI)
qed

end
